theory Spec2Isabelle
  imports Main "HOL-Library.Sublist" "HOL-Library.AList"
begin

section \<open>JavaScript values the application computes with\<close>

text \<open>
  The application is a single React component (\<^verbatim>\<open>App\<close>), in two variants: one creates
  the map itself, the other uses a declarative map component. Helper functions, state and
  the three handlers of the selectors are the same in both. The logic of the component
  works on strings, on numbers read from \<^verbatim>\<open>Date\<close> objects and on plain objects used as
  dictionaries. This section gives the few operations of the JavaScript runtime that the
  source calls.

  A JavaScript number is modelled as an integer or \<^verbatim>\<open>NaN\<close>: every number the source
  handles is a field of a \<^verbatim>\<open>Date\<close>, which is an integer for a valid date and \<^verbatim>\<open>NaN\<close>
  for an invalid one.
\<close>

datatype number = Number int | NaN

fun js_plus :: "number \<Rightarrow> number \<Rightarrow> number" where
  "js_plus (Number a) (Number b) = Number (a + b)"
| "js_plus _ _ = NaN"

definition digit_char :: "nat \<Rightarrow> char" where
  "digit_char d = ''0123456789'' ! d"

fun decimal :: "nat \<Rightarrow> string" where
  "decimal n = (if n < 10 then [digit_char n] else decimal (n div 10) @ [digit_char (n mod 10)])"

declare decimal.simps [simp del]

text \<open>\<^verbatim>\<open>String(num)\<close> and the conversion inside a template literal, for integers (below
  \<open>10\<^sup>2\<^sup>1\<close> in magnitude, where JavaScript prints all digits) and \<^verbatim>\<open>NaN\<close>.\<close>

fun String :: "number \<Rightarrow> string" where
  "String (Number i) = (if i < 0 then ''-'' @ decimal (nat (- i)) else decimal (nat i))"
| "String NaN = ''NaN''"

text \<open>\<^verbatim>\<open>s.padStart(n, c)\<close> for a one-character filler \<open>c\<close>: nothing is added when \<open>s\<close> already
  has \<open>n\<close> characters or more (the subtraction on \<open>nat\<close> stops at zero).\<close>

definition padStart :: "nat \<Rightarrow> char \<Rightarrow> string \<Rightarrow> string" where
  "padStart n c s = replicate (n - length s) c @ s"

text \<open>Strings are lists of characters; the names the application handles (domain
  identifiers, variable names) are ASCII. \<^verbatim>\<open>s.startsWith(p)\<close> is \<^const>\<open>prefix\<close> \<open>p s\<close>;
  \<^verbatim>\<open>s.includes(sub)\<close> on strings is \<^const>\<open>sublist\<close> \<open>sub s\<close> (a contiguous occurrence);
  \<^verbatim>\<open>xs.includes(x)\<close> on arrays is \<open>x \<in> set xs\<close>; \<^verbatim>\<open>xs.find(p)\<close> is \<^const>\<open>find\<close> \<open>p xs\<close>.\<close>

abbreviation startsWith :: "string \<Rightarrow> string \<Rightarrow> bool" where
  "startsWith s p \<equiv> prefix p s"

abbreviation includes_str :: "string \<Rightarrow> string \<Rightarrow> bool" where
  "includes_str s sub \<equiv> sublist sub s"

subsection \<open>Dates\<close>

text \<open>
  A \<^verbatim>\<open>Date\<close> holds a time value: the milliseconds since 1970-01-01T00:00Z, or \<^verbatim>\<open>NaN\<close>
  (an invalid date, which \<^verbatim>\<open>new Date(s)\<close> returns for a string it cannot parse). The UTC
  getters follow the ECMAScript definitions: \<open>Day(t) = floor (t / msPerDay)\<close>,
  \<open>HourFromTime(t) = floor (t / msPerHour) mod 24\<close> and so on; \<open>div\<close> and \<open>mod\<close> on \<open>int\<close>
  round towards minus infinity, as these definitions do. The calendar fields of a day
  number are computed on the 400-year cycle of the proleptic Gregorian calendar, with the
  year counted from 1 March so that the leap day is the last day of the year. Time values
  are not clipped to the range of \<open>\<plusminus>8.64 \<times> 10\<^sup>1\<^sup>5\<close> ms that JavaScript allows.
\<close>

datatype date = TimeValue int | InvalidDate

definition msPerDay :: int where "msPerDay = 86400000"
definition msPerHour :: int where "msPerHour = 3600000"
definition msPerMinute :: int where "msPerMinute = 60000"
definition msPerSecond :: int where "msPerSecond = 1000"

definition Day :: "int \<Rightarrow> int" where
  "Day t = t div msPerDay"

text \<open>\<open>marchYear day\<close> is the year that starts on 1 March and contains the day number \<open>day\<close>
  (counted from 1970-01-01), with the day within that year, from 0. A cycle of 400 years has
  146097 days, a century 36524 (the last one of the cycle one more), four years 1461 and a
  year 365 (the last one of four one more).\<close>

definition marchYear :: "int \<Rightarrow> int \<times> int" where
  "marchYear day =
     (let z = day + 719468;
          era = z div 146097;
          doe = z mod 146097;
          c = min 3 (doe div 36524);
          r = doe - 36524 * c;
          q = r div 1461;
          r4 = r mod 1461;
          a = min 3 (r4 div 365)
      in (400 * era + 100 * c + 4 * q + a, r4 - 365 * a))"

text \<open>(year, month from 0, day of the month from 1) of a day number.\<close>

definition civil :: "int \<Rightarrow> int \<times> int \<times> int" where
  "civil day =
     (let (y, doy) = marchYear day;
          mp = (5 * doy + 2) div 153;
          d = doy - (153 * mp + 2) div 5 + 1;
          m = (if mp < 10 then mp + 3 else mp - 9)
      in (if m \<le> 2 then y + 1 else y, m - 1, d))"

definition YearFromTime :: "int \<Rightarrow> int" where
  "YearFromTime t = fst (civil (Day t))"

definition MonthFromTime :: "int \<Rightarrow> int" where
  "MonthFromTime t = fst (snd (civil (Day t)))"

definition DateFromTime :: "int \<Rightarrow> int" where
  "DateFromTime t = snd (snd (civil (Day t)))"

definition HourFromTime :: "int \<Rightarrow> int" where
  "HourFromTime t = (t div msPerHour) mod 24"

definition MinFromTime :: "int \<Rightarrow> int" where
  "MinFromTime t = (t div msPerMinute) mod 60"

definition SecFromTime :: "int \<Rightarrow> int" where
  "SecFromTime t = (t div msPerSecond) mod 60"

definition msFromTime :: "int \<Rightarrow> int" where
  "msFromTime t = t mod msPerSecond"

text \<open>
  The ECMAScript specification defines the calendar fields of a time value through the
  number of the first day of a year: the year of \<open>t\<close> is the largest \<open>y\<close> with
  \<open>DayFromYear y \<le> Day t\<close>, and month and day of the month are read from a table over the
  day within the year and the leap-year flag. These definitions are not executable as they
  stand; they are stated here, and the fields computed above are proved to be the ones they
  define.
\<close>

definition DayFromYear :: "int \<Rightarrow> int" where
  "DayFromYear y = 365 * (y - 1970) + (y - 1969) div 4 - (y - 1901) div 100 + (y - 1601) div 400"

definition DaysInYear :: "int \<Rightarrow> int" where
  "DaysInYear y =
     (if y mod 4 \<noteq> 0 then 365 else if y mod 100 \<noteq> 0 then 366
      else if y mod 400 \<noteq> 0 then 365 else 366)"

definition DayWithinYear :: "int \<Rightarrow> int" where
  "DayWithinYear t = Day t - DayFromYear (YearFromTime t)"

definition InLeapYear :: "int \<Rightarrow> int" where
  "InLeapYear t = (if DaysInYear (YearFromTime t) = 365 then 0 else 1)"

text \<open>The tables of \<open>MonthFromTime\<close> and \<open>DateFromTime\<close>, over the day within the year \<open>d\<close>
  and the leap-year flag \<open>l\<close>.\<close>

definition monthOfDay :: "int \<Rightarrow> int \<Rightarrow> int" where
  "monthOfDay d l =
     (if d < 31 then 0 else if d < 59 + l then 1 else if d < 90 + l then 2
      else if d < 120 + l then 3 else if d < 151 + l then 4 else if d < 181 + l then 5
      else if d < 212 + l then 6 else if d < 243 + l then 7 else if d < 273 + l then 8
      else if d < 304 + l then 9 else if d < 334 + l then 10 else 11)"

definition dateOfDay :: "int \<Rightarrow> int \<Rightarrow> int" where
  "dateOfDay d l =
     (let m = monthOfDay d l
      in if m = 0 then d + 1 else if m = 1 then d - 30 else if m = 2 then d - 58 - l
         else if m = 3 then d - 89 - l else if m = 4 then d - 119 - l
         else if m = 5 then d - 150 - l else if m = 6 then d - 180 - l
         else if m = 7 then d - 211 - l else if m = 8 then d - 242 - l
         else if m = 9 then d - 272 - l else if m = 10 then d - 303 - l
         else d - 333 - l)"

text \<open>The number of days from 1 March of the year 0 to 1 March of the year \<open>y\<close>.\<close>

definition marchDays :: "int \<Rightarrow> int" where
  "marchDays y = 365 * y + y div 4 - y div 100 + y div 400"

fun getUTCFullYear :: "date \<Rightarrow> number" where
  "getUTCFullYear (TimeValue t) = Number (YearFromTime t)"
| "getUTCFullYear InvalidDate = NaN"

fun getUTCMonth :: "date \<Rightarrow> number" where
  "getUTCMonth (TimeValue t) = Number (MonthFromTime t)"
| "getUTCMonth InvalidDate = NaN"

fun getUTCDate :: "date \<Rightarrow> number" where
  "getUTCDate (TimeValue t) = Number (DateFromTime t)"
| "getUTCDate InvalidDate = NaN"

fun getUTCHours :: "date \<Rightarrow> number" where
  "getUTCHours (TimeValue t) = Number (HourFromTime t)"
| "getUTCHours InvalidDate = NaN"

fun getUTCMinutes :: "date \<Rightarrow> number" where
  "getUTCMinutes (TimeValue t) = Number (MinFromTime t)"
| "getUTCMinutes InvalidDate = NaN"

fun getUTCSeconds :: "date \<Rightarrow> number" where
  "getUTCSeconds (TimeValue t) = Number (SecFromTime t)"
| "getUTCSeconds InvalidDate = NaN"

fun getUTCMilliseconds :: "date \<Rightarrow> number" where
  "getUTCMilliseconds (TimeValue t) = Number (msFromTime t)"
| "getUTCMilliseconds InvalidDate = NaN"

text \<open>\<^verbatim>\<open>d.setUTCHours(h, m, s, ms)\<close>: the day of \<open>d\<close> is kept and the time within the day is
  replaced by \<open>MakeTime(h, m, s, ms)\<close>; an hour of 24 therefore rolls over to the next day.
  With an invalid date or a \<^verbatim>\<open>NaN\<close> argument the result is invalid.\<close>

fun setUTCHours :: "date \<Rightarrow> number \<Rightarrow> number \<Rightarrow> number \<Rightarrow> number \<Rightarrow> date" where
  "setUTCHours (TimeValue t) (Number h) (Number m) (Number s) (Number ms) =
     TimeValue (Day t * msPerDay + (h * msPerHour + m * msPerMinute + s * msPerSecond + ms))"
| "setUTCHours _ _ _ _ _ = InvalidDate"

section \<open>Helper functions of the application\<close>

text \<open>\<^verbatim>\<open>const pad = (num) => String(num).padStart(2, '0')\<close>\<close>

definition pad :: "number \<Rightarrow> string" where
  "pad num = padStart 2 CHR ''0'' (String num)"

definition fmtModelRun :: "date \<Rightarrow> string" where
  "fmtModelRun modelRun =
     String (getUTCFullYear modelRun) @ ''/'' @ pad (js_plus (getUTCMonth modelRun) (Number 1))
       @ ''/'' @ pad (getUTCDate modelRun) @ ''/'' @ pad (getUTCHours modelRun)
       @ pad (getUTCMinutes modelRun) @ ''Z''"

definition fmtSelectedTime :: "date \<Rightarrow> string" where
  "fmtSelectedTime time =
     String (getUTCFullYear time) @ ''-'' @ pad (js_plus (getUTCMonth time) (Number 1))
       @ ''-'' @ pad (getUTCDate time) @ ''T'' @ pad (getUTCHours time)
       @ pad (getUTCMinutes time)"

definition getOMUrl :: "string \<Rightarrow> string \<Rightarrow> date \<Rightarrow> date \<Rightarrow> string" where
  "getOMUrl domain variable modelRun selectedTime =
     (let uri = (if startsWith domain ''dwd_icon''
                 then ''https://s3.servert.ch''
                 else ''https://map-tiles.open-meteo.com'');
          url = uri @ ''/data_spatial/'' @ domain;
          url = url @ ''/'' @ fmtModelRun modelRun @ ''/'' @ fmtSelectedTime selectedTime @ ''.om'';
          url = url @ ''?variable='' @ variable
      in url)"

definition getStyleUrl :: string where
  "getStyleUrl = ''https://maptiler.servert.nl/styles/minimal-world-maps/style.json''"

section \<open>What the application takes from outside\<close>

text \<open>
  The three patterns \<^verbatim>\<open>LEVEL_REGEX\<close>, \<^verbatim>\<open>LEVEL_PREFIX\<close>, \<^verbatim>\<open>LEVEL_UNIT_REGEX\<close> and the
  table \<^verbatim>\<open>variableOptions\<close> are imported from the protocol library
  \<^verbatim>\<open>@openmeteo/mapbox-layer\<close>; their values are not part of this repository. They are
  parameters of the model, and so is the date parser of the runtime:
  \<^item> \<open>LEVEL_REGEX env s\<close> is \<^verbatim>\<open>LEVEL_REGEX.test(s)\<close> (the pattern is taken to be without the
    global flag, so that the test has no memory);
  \<^item> \<open>LEVEL_PREFIX env s\<close> is the named group \<^verbatim>\<open>prefix\<close> of \<^verbatim>\<open>s.match(LEVEL_PREFIX)\<close>, and
    \<open>None\<close> when there is no match or the group did not take part in it;
  \<^item> \<open>LEVEL_UNIT_REGEX env s\<close> is the pair of the named groups \<^verbatim>\<open>level\<close> and \<^verbatim>\<open>unit\<close>;
  \<^item> \<open>newDate env s\<close> is \<^verbatim>\<open>new Date(s)\<close>.
\<close>

record varOption =
  opt_value :: string
  opt_label :: string

record env =
  LEVEL_REGEX :: "string \<Rightarrow> bool"
  LEVEL_PREFIX :: "string \<Rightarrow> string option"
  LEVEL_UNIT_REGEX :: "string \<Rightarrow> (string \<times> string) option"
  variableOptions :: "varOption list"
  newDate :: "string \<Rightarrow> date"

text \<open>The metadata document \<^verbatim>\<open>DomainMetaDataJson\<close>, as far as the application reads it.\<close>

record DomainMetaDataJson =
  reference_time :: string
  variables :: "string list"

text \<open>
  Exceptions are values. \<^verbatim>\<open>fetch\<close> rejects with a \<^verbatim>\<open>TypeError\<close> when the network fails;
  \<^verbatim>\<open>response.json()\<close> rejects with a \<^verbatim>\<open>SyntaxError\<close> when the body is not JSON; reading a
  property of \<^verbatim>\<open>undefined\<close> and calling what is not a function throw a \<^verbatim>\<open>TypeError\<close>.
\<close>

datatype js_error = Error string | TypeError | SyntaxError

text \<open>A response has a status and a body; the body is \<open>None\<close> when it is not JSON, and a
  JSON body is taken to have the type the source declares for it. The network is a function
  from the requested URL to the outcome of the request.\<close>

record response =
  status :: nat
  body :: "DomainMetaDataJson option"

definition ok :: "response \<Rightarrow> bool" where
  "ok r = (200 \<le> status r \<and> status r \<le> 299)"

type_synonym network = "string \<Rightarrow> js_error + response"

subsection \<open>Plain objects as dictionaries\<close>

text \<open>
  \<^verbatim>\<open>Record<string, Array<{value, label}>>\<close> is a plain object created by \<^verbatim>\<open>{}\<close>: its own
  properties in insertion order, here an association list. Reading \<^verbatim>\<open>groups[k]\<close> also finds
  the properties every object inherits from \<^verbatim>\<open>Object.prototype\<close>; these are functions (and
  for \<^verbatim>\<open>__proto__\<close> the prototype itself), all of them truthy, with no element \<^verbatim>\<open>0\<close> and no
  method \<^verbatim>\<open>push\<close>.
\<close>

type_synonym groups = "(string \<times> varOption list) list"

definition Object_prototype_keys :: "string list" where
  "Object_prototype_keys =
     [''constructor'', ''__defineGetter__'', ''__defineSetter__'', ''hasOwnProperty'',
      ''__lookupGetter__'', ''__lookupSetter__'', ''isPrototypeOf'', ''propertyIsEnumerable'',
      ''toString'', ''valueOf'', ''__proto__'', ''toLocaleString'']"

datatype 'a property = Own 'a | Inherited | Absent

definition getProperty :: "(string \<times> 'a) list \<Rightarrow> string \<Rightarrow> 'a property" where
  "getProperty obj k =
     (case map_of obj k of
        Some v \<Rightarrow> Own v
      | None \<Rightarrow> if k \<in> set Object_prototype_keys then Inherited else Absent)"

text \<open>Truthiness of \<^verbatim>\<open>groups[k]\<close>: an array, even an empty one, and an inherited property
  are truthy; \<^verbatim>\<open>undefined\<close> is not.\<close>

fun truthy :: "'a property \<Rightarrow> bool" where
  "truthy Absent = False"
| "truthy _ = True"

section \<open>The level-grouping functions\<close>

text \<open>\<^verbatim>\<open>extractLevelInfo\<close>: the level and unit of a variable name, or \<^verbatim>\<open>null\<close>.\<close>

definition extractLevelInfo :: "env \<Rightarrow> string \<Rightarrow> (string \<times> string) option" where
  "extractLevelInfo env variable = LEVEL_UNIT_REGEX env variable"

text \<open>\<^verbatim>\<open>getLevelPrefix\<close>: \<^verbatim>\<open>match?.groups?.prefix || null\<close>; an empty prefix is falsy and becomes
  \<^verbatim>\<open>null\<close> as well.\<close>

definition getLevelPrefix :: "env \<Rightarrow> string \<Rightarrow> string option" where
  "getLevelPrefix env variable =
     (case LEVEL_PREFIX env variable of
        None \<Rightarrow> None
      | Some prefix' \<Rightarrow> if prefix' = [] then None else Some prefix')"

definition hasLevels :: "env \<Rightarrow> string \<Rightarrow> bool" where
  "hasLevels env variable = LEVEL_REGEX env variable"

text \<open>\<^verbatim>\<open>variableList\<close>: the loop over \<^verbatim>\<open>metaJson.variables\<close>, with the array \<^verbatim>\<open>variables\<close> it
  fills as accumulator.\<close>

fun variableListLoop :: "env \<Rightarrow> string list \<Rightarrow> string list \<Rightarrow> string list" where
  "variableListLoop env variables' [] = variables'"
| "variableListLoop env variables' (mjVariable # rest) =
     (if hasLevels env mjVariable then
        (case getLevelPrefix env mjVariable of
           Some prefix' \<Rightarrow>
             if prefix' \<notin> set variables'
             then variableListLoop env (variables' @ [prefix']) rest
             else variableListLoop env variables' rest
         | None \<Rightarrow> variableListLoop env variables' rest)
      else variableListLoop env (variables' @ [mjVariable]) rest)"

definition variableList :: "env \<Rightarrow> DomainMetaDataJson option \<Rightarrow> string list" where
  "variableList env metaJson =
     (case metaJson of None \<Rightarrow> [] | Some m \<Rightarrow> variableListLoop env [] (variables m))"

text \<open>\<^verbatim>\<open>levelGroupsList\<close>: the loop that fills the object \<^verbatim>\<open>groups\<close>. When the prefix is the
  name of an inherited property, \<^verbatim>\<open>groups[prefix]\<close> is truthy, no array is created, and
  \<^verbatim>\<open>groups[prefix].push\<close> is not a function: the call throws.\<close>

definition varOptionOf :: "env \<Rightarrow> string \<Rightarrow> varOption" where
  "varOptionOf env mjVariable =
     (case find (\<lambda>v. opt_value v = mjVariable) (variableOptions env) of
        Some v \<Rightarrow> v
      | None \<Rightarrow> \<lparr>opt_value = mjVariable, opt_label = mjVariable\<rparr>)"

definition pushGroup :: "groups \<Rightarrow> string \<Rightarrow> varOption \<Rightarrow> js_error + groups" where
  "pushGroup groups prefix' varOption =
     (let groups1 = (if \<not> truthy (getProperty groups prefix')
                     then AList.update prefix' [] groups else groups)
      in case getProperty groups1 prefix' of
           Own entries \<Rightarrow> Inr (AList.update prefix' (entries @ [varOption]) groups1)
         | Inherited \<Rightarrow> Inl TypeError
         | Absent \<Rightarrow> Inl TypeError)"

fun levelGroupsLoop :: "env \<Rightarrow> groups \<Rightarrow> string list \<Rightarrow> js_error + groups" where
  "levelGroupsLoop env groups [] = Inr groups"
| "levelGroupsLoop env groups (mjVariable # rest) =
     (if hasLevels env mjVariable then
        (case getLevelPrefix env mjVariable of
           Some prefix' \<Rightarrow>
             (case pushGroup groups prefix' (varOptionOf env mjVariable) of
                Inl e \<Rightarrow> Inl e
              | Inr groups' \<Rightarrow> levelGroupsLoop env groups' rest)
         | None \<Rightarrow> levelGroupsLoop env groups rest)
      else levelGroupsLoop env groups rest)"

definition levelGroupsList :: "env \<Rightarrow> DomainMetaDataJson option \<Rightarrow> js_error + groups" where
  "levelGroupsList env metaJson =
     (case metaJson of None \<Rightarrow> Inr [] | Some m \<Rightarrow> levelGroupsLoop env [] (variables m))"

section \<open>The selection state and its transitions\<close>

text \<open>
  The state is what the component keeps with \<^verbatim>\<open>useState\<close>, together with the errors written
  to the console. \<^verbatim>\<open>variable\<close> is declared a string; at run time it can also hold
  \<^verbatim>\<open>undefined\<close> (\<open>None\<close>), which is what \<^verbatim>\<open>meta.variables[0]\<close> is for an empty array.
  \<^verbatim>\<open>metaJson\<close> and \<^verbatim>\<open>modelRun\<close> are \<^verbatim>\<open>null\<close> (\<open>None\<close>) until the first document has loaded.
\<close>

record state =
  loading :: bool
  domain :: string
  variable :: "string option"
  metaJson :: "DomainMetaDataJson option"
  modelRun :: "date option"
  selectedTime :: date
  console :: "js_error list"

text \<open>The initialiser of \<^verbatim>\<open>selectedTime\<close>; \<open>now\<close> is the time value of \<^verbatim>\<open>new Date()\<close>.\<close>

definition initialSelectedTime :: "int \<Rightarrow> date" where
  "initialSelectedTime now =
     setUTCHours (TimeValue now) (js_plus (getUTCHours (TimeValue now)) (Number 1))
       (Number 0) (Number 0) (Number 0)"

definition initialState :: "int \<Rightarrow> state" where
  "initialState now =
     \<lparr>loading = True, domain = ''dwd_icon'', variable = Some ''temperature_2m'',
      metaJson = None, modelRun = None, selectedTime = initialSelectedTime now,
      console = []\<rparr>"

definition metaDataUrl :: "string \<Rightarrow> string" where
  "metaDataUrl domainValue =
     (let uri = (if startsWith domainValue ''dwd_icon''
                 then ''https://s3.servert.ch''
                 else ''https://map-tiles.open-meteo.com'')
      in uri @ ''/data_spatial/'' @ domainValue @ ''/latest.json'')"

definition fetchMetaData :: "network \<Rightarrow> string \<Rightarrow> js_error + DomainMetaDataJson" where
  "fetchMetaData net domainValue =
     (case net (metaDataUrl domainValue) of
        Inl e \<Rightarrow> Inl e
      | Inr response \<Rightarrow>
          if \<not> ok response then Inl (Error (''HTTP '' @ decimal (status response)))
          else (case body response of None \<Rightarrow> Inl SyntaxError | Some m \<Rightarrow> Inr m))"

text \<open>The overlay URL handed to the map: \<^verbatim>\<open>null\<close> while there is no model run. Inside the
  template literal an undefined variable prints as \<^verbatim>\<open>undefined\<close>.\<close>

definition omUrl :: "state \<Rightarrow> string option" where
  "omUrl s =
     (case modelRun s of
        None \<Rightarrow> None
      | Some mr \<Rightarrow>
          Some (''om://'' @ getOMUrl (domain s)
                  (case variable s of None \<Rightarrow> ''undefined'' | Some v \<Rightarrow> v) mr (selectedTime s)))"

text \<open>
  \<^verbatim>\<open>initMap\<close>, run once when the component is mounted: the metadata of the initial domain is
  fetched and stored; then the style is fetched and the map is created, which is the work of
  the map library. What that work does to the state is its outcome: the map fires its
  \<^verbatim>\<open>load\<close> event (the loading flag is cleared), or an exception reaches the \<^verbatim>\<open>catch\<close> (it is
  logged and the flag is cleared), or neither happens.
\<close>

datatype map_outcome = MapLoaded | MapFailed js_error | MapPending

definition initMap :: "env \<Rightarrow> network \<Rightarrow> map_outcome \<Rightarrow> state \<Rightarrow> state" where
  "initMap env net outcome s =
     (case fetchMetaData net (domain s) of
        Inl error \<Rightarrow> s\<lparr>console := console s @ [error], loading := False\<rparr>
      | Inr meta \<Rightarrow>
          (let s1 = s\<lparr>metaJson := Some meta,
                       modelRun := Some (newDate env (reference_time meta))\<rparr>
           in case outcome of
                MapLoaded \<Rightarrow> s1\<lparr>loading := False\<rparr>
              | MapFailed error \<Rightarrow> s1\<lparr>console := console s1 @ [error], loading := False\<rparr>
              | MapPending \<Rightarrow> s1))"

text \<open>\<^verbatim>\<open>meta.variables[0]\<close>\<close>

definition index0 :: "'a list \<Rightarrow> 'a option" where
  "index0 xs = (case xs of [] \<Rightarrow> None | x # _ \<Rightarrow> Some x)"

text \<open>The loop of \<^verbatim>\<open>handleDomainChange\<close> that looks for a similar variable, with \<^verbatim>\<open>newVariable\<close>
  as accumulator; \<^verbatim>\<open>break\<close> ends it at the first name starting with the prefix.\<close>

fun similarVariableLoop :: "string \<Rightarrow> string option \<Rightarrow> string list \<Rightarrow> string option" where
  "similarVariableLoop prefix' newVariable [] = newVariable"
| "similarVariableLoop prefix' newVariable (v # rest) =
     (if startsWith v prefix' then Some v else similarVariableLoop prefix' newVariable rest)"

text \<open>
  \<^verbatim>\<open>handleDomainChange\<close>, as one transition from the call to the end of the \<^verbatim>\<open>finally\<close> block.
  \<^verbatim>\<open>variable\<close> in its body is the value the state had when the handler was called. With an
  undefined variable \<^verbatim>\<open>getLevelPrefix\<close> throws inside the \<^verbatim>\<open>try\<close> block, after the document
  and the model run have been stored.
\<close>

definition handleDomainChange :: "env \<Rightarrow> network \<Rightarrow> string \<Rightarrow> state \<Rightarrow> state" where
  "handleDomainChange env net newDomain s =
     (let s1 = s\<lparr>loading := True, domain := newDomain\<rparr>
      in case fetchMetaData net newDomain of
           Inl error \<Rightarrow> s1\<lparr>console := console s1 @ [error], loading := False\<rparr>
         | Inr meta \<Rightarrow>
             (let s2 = s1\<lparr>metaJson := Some meta,
                           modelRun := Some (newDate env (reference_time meta))\<rparr>
              in case variable s of
                   None \<Rightarrow> s2\<lparr>console := console s2 @ [TypeError], loading := False\<rparr>
                 | Some current \<Rightarrow>
                     if current \<notin> set (variables meta) then
                       (let newVariable =
                              (case getLevelPrefix env current of
                                 Some prefix' \<Rightarrow>
                                   similarVariableLoop prefix' (index0 (variables meta))
                                     (variables meta)
                               | None \<Rightarrow> index0 (variables meta))
                        in s2\<lparr>variable := newVariable, loading := False\<rparr>)
                     else s2\<lparr>loading := False\<rparr>))"

text \<open>The loop of \<^verbatim>\<open>handleVariableChange\<close> that chooses the default level, with
  \<^verbatim>\<open>defaultLevel\<close> as accumulator.\<close>

fun defaultLevelLoop :: "string \<Rightarrow> varOption list \<Rightarrow> string" where
  "defaultLevelLoop defaultLevel [] = defaultLevel"
| "defaultLevelLoop defaultLevel (level # rest) =
     (if includes_str (opt_value level) ''2m'' \<or> includes_str (opt_value level) ''10m''
         \<or> includes_str (opt_value level) ''100m''
      then opt_value level
      else defaultLevelLoop defaultLevel rest)"

text \<open>
  \<^verbatim>\<open>handleVariableChange\<close>. An exception leaves the handler before \<^verbatim>\<open>setVariable\<close> is called:
  when \<^verbatim>\<open>levelGroupsList\<close> throws, and when \<^verbatim>\<open>groups[newVariable]\<close> is an inherited property
  or an empty array, where \<^verbatim>\<open>levels[0]\<close> is undefined and has no \<^verbatim>\<open>value\<close>.
\<close>

definition handleVariableChange :: "env \<Rightarrow> string \<Rightarrow> state \<Rightarrow> js_error + state" where
  "handleVariableChange env newVariable s =
     (case levelGroupsList env (metaJson s) of
        Inl e \<Rightarrow> Inl e
      | Inr groups \<Rightarrow>
          (case getProperty groups newVariable of
             Own levels \<Rightarrow>
               (case levels of
                  [] \<Rightarrow> Inl TypeError
                | level0 # _ \<Rightarrow>
                    Inr (s\<lparr>variable := Some (defaultLevelLoop (opt_value level0) levels)\<rparr>))
           | Inherited \<Rightarrow> Inl TypeError
           | Absent \<Rightarrow> Inr (s\<lparr>variable := Some newVariable\<rparr>)))"

definition handleLevelChange :: "string \<Rightarrow> state \<Rightarrow> state" where
  "handleLevelChange newLevel s = s\<lparr>variable := Some newLevel\<rparr>"

text \<open>
  A session is the initial state followed by events: the mount, and the three handlers
  called by the selectors. Each event that fetches carries the network as it answers then.
  An exception thrown by an event handler leaves the state as it was.
\<close>

datatype event =
    Mount network map_outcome
  | ChangeDomain string network
  | ChangeVariable string
  | ChangeLevel string

fun step :: "env \<Rightarrow> state \<Rightarrow> event \<Rightarrow> state" where
  "step env s (Mount net outcome) = initMap env net outcome s"
| "step env s (ChangeDomain newDomain net) = handleDomainChange env net newDomain s"
| "step env s (ChangeVariable newVariable) =
     (case handleVariableChange env newVariable s of Inl e \<Rightarrow> s | Inr s' \<Rightarrow> s')"
| "step env s (ChangeLevel newLevel) = handleLevelChange newLevel s"

definition run :: "env \<Rightarrow> state \<Rightarrow> event list \<Rightarrow> state" where
  "run env s events = foldl (step env) s events"

section \<open>The notions of the specification\<close>

text \<open>
  The specification selects the base endpoint by a static rule on the domain identifier:
  one endpoint for identifiers with the institutional prefix, the default endpoint for all
  others. \<open>specEndpoint\<close> writes this rule down once; \<^const>\<open>getOMUrl\<close> and
  \<^const>\<open>metaDataUrl\<close>, which each repeat the test in the source, are compared with it.
\<close>

definition specEndpoint :: "string \<Rightarrow> string" where
  "specEndpoint domainValue =
     (if startsWith domainValue ''dwd_icon'' then ''https://s3.servert.ch''
      else ''https://map-tiles.open-meteo.com'')"

text \<open>The level group of a prefix, as the specification describes it: the level-bearing
  names of the document whose extracted prefix is that prefix, in the order of the
  document, each with its entry of the option table.\<close>

definition specLevelGroup :: "env \<Rightarrow> string \<Rightarrow> string list \<Rightarrow> varOption list" where
  "specLevelGroup env p vars =
     map (varOptionOf env)
       (filter (\<lambda>v. hasLevels env v \<and> getLevelPrefix env v = Some p) vars)"

text \<open>The default member of a group, as the specification describes it: the first entry
  containing \<^verbatim>\<open>2m\<close>, else the first containing \<^verbatim>\<open>10m\<close>, else the first containing \<^verbatim>\<open>100m\<close>,
  else the first entry.\<close>

definition specDefaultLevel :: "varOption list \<Rightarrow> string option" where
  "specDefaultLevel levels =
     (case find (\<lambda>l. includes_str (opt_value l) ''2m'') levels of
        Some l \<Rightarrow> Some (opt_value l)
      | None \<Rightarrow>
          (case find (\<lambda>l. includes_str (opt_value l) ''10m'') levels of
             Some l \<Rightarrow> Some (opt_value l)
           | None \<Rightarrow>
               (case find (\<lambda>l. includes_str (opt_value l) ''100m'') levels of
                  Some l \<Rightarrow> Some (opt_value l)
                | None \<Rightarrow> index0 (map opt_value levels))))"

text \<open>The invariant of the selection state: a document has loaded and the current variable
  is one of its variables.\<close>

definition variableInDocument :: "state \<Rightarrow> bool" where
  "variableInDocument s =
     (case metaJson s of
        None \<Rightarrow> False
      | Some m \<Rightarrow> (case variable s of None \<Rightarrow> False | Some v \<Rightarrow> v \<in> set (variables m)))"

text \<open>No prefix extracted from a level-bearing name of the list is the name of a property
  that plain objects inherit. This is the condition under which \<^const>\<open>levelGroupsList\<close>
  returns a mapping instead of throwing.\<close>

definition noInheritedPrefix :: "env \<Rightarrow> string list \<Rightarrow> bool" where
  "noInheritedPrefix env vars =
     list_all (\<lambda>v. case getLevelPrefix env v of
                     Some p \<Rightarrow> \<not> hasLevels env v \<or> p \<notin> set Object_prototype_keys
                   | None \<Rightarrow> True) vars"

text \<open>
  The events the three selectors can produce in a state: a domain change whose fetch fails
  or brings a document with at least one variable; a variable change to an entry of the
  list the variable selector is filled from; a level change to an entry of a level group of
  the current document, which is where the level selector takes its options. The mount is
  not among them: it happens once, before any document has loaded.
\<close>

fun selectable :: "env \<Rightarrow> state \<Rightarrow> event \<Rightarrow> bool" where
  "selectable env s (Mount net outcome) = False"
| "selectable env s (ChangeDomain newDomain net) =
     (case fetchMetaData net newDomain of Inl e \<Rightarrow> True | Inr meta \<Rightarrow> variables meta \<noteq> [])"
| "selectable env s (ChangeVariable newVariable) =
     (newVariable \<in> set (variableList env (metaJson s)))"
| "selectable env s (ChangeLevel newLevel) =
     (case levelGroupsList env (metaJson s) of
        Inl e \<Rightarrow> False
      | Inr groups \<Rightarrow> newLevel \<in> set (map opt_value (concat (map snd groups))))"

fun selectableRun :: "env \<Rightarrow> state \<Rightarrow> event list \<Rightarrow> bool" where
  "selectableRun env s [] = True"
| "selectableRun env s (ev # events) =
     (selectable env s ev \<and> selectableRun env (step env s ev) events)"

section \<open>A sample environment\<close>

text \<open>
  One possible value of the imported patterns, used where a property is evaluated on a
  concrete document: a name is level-bearing when it ends with an underscore, digits and the
  unit \<^verbatim>\<open>hPa\<close> or \<^verbatim>\<open>m\<close>; its prefix is what stands before that underscore, provided it is one
  of the group names of the table.
\<close>

definition isDigit :: "char \<Rightarrow> bool" where
  "isDigit c = (c \<in> set ''0123456789'')"

definition sampleSplit :: "string \<Rightarrow> (string \<times> string \<times> string) option" where
  "sampleSplit s =
     (let r = rev s;
          suffix = rev (takeWhile (\<lambda>c. c \<noteq> CHR ''_'') r);
          front = dropWhile (\<lambda>c. c \<noteq> CHR ''_'') r;
          level = takeWhile isDigit suffix;
          unit = dropWhile isDigit suffix
      in if front \<noteq> [] \<and> level \<noteq> [] \<and> (unit = ''hPa'' \<or> unit = ''m'')
         then Some (rev (tl front), level, unit) else None)"

definition sampleGroupNames :: "string list" where
  "sampleGroupNames = [''temperature'', ''cloud_cover'', ''wind_speed'', ''geopotential_height'']"

definition sampleEnv :: env where
  "sampleEnv =
     \<lparr>LEVEL_REGEX = (\<lambda>s. sampleSplit s \<noteq> None),
      LEVEL_PREFIX = (\<lambda>s. case sampleSplit s of
                             Some (p, _, _) \<Rightarrow> if p \<in> set sampleGroupNames then Some p else None
                           | None \<Rightarrow> None),
      LEVEL_UNIT_REGEX = (\<lambda>s. map_option snd (sampleSplit s)),
      variableOptions = [\<lparr>opt_value = ''temperature_2m'', opt_label = ''Temperature (2 m)''\<rparr>],
      newDate = (\<lambda>s. if s = ''2024-05-01T06:00Z'' then TimeValue 1714543200000
                       else InvalidDate)\<rparr>"

definition sampleNetwork :: "DomainMetaDataJson \<Rightarrow> network" where
  "sampleNetwork m = (\<lambda>url. Inr \<lparr>status = 200, body = Some m\<rparr>)"

definition failingNetwork :: network where
  "failingNetwork = (\<lambda>url. Inr \<lparr>status = 404, body = None\<rparr>)"

definition sampleMeta :: "string list \<Rightarrow> DomainMetaDataJson" where
  "sampleMeta vs = \<lparr>reference_time = ''2024-05-01T06:00Z'', variables = vs\<rparr>"

text \<open>A state with the document \<open>sampleMeta vs\<close> loaded and the variable \<open>v\<close> selected.\<close>

definition sampleState :: "string \<Rightarrow> string list \<Rightarrow> state" where
  "sampleState v vs =
     \<lparr>loading = False, domain = ''dwd_icon'', variable = Some v,
      metaJson = Some (sampleMeta vs),
      modelRun = Some (TimeValue 1714543200000), selectedTime = TimeValue 1714546800000,
      console = []\<rparr>"

section \<open>Dates and padding\<close>

subsection \<open>The calendar\<close>

lemma marchYear_doy: "0 \<le> snd (marchYear day) \<and> snd (marchYear day) \<le> 365"
proof -
  define r where "r = (day + 719468) mod 146097
      - 36524 * min 3 ((day + 719468) mod 146097 div 36524)"
  define r4 where "r4 = r mod 1461"
  define k where "k = r4 div 365"
  have r4: "0 \<le> r4" "r4 \<le> 1460" unfolding r4_def by simp_all
  have k: "365 * k \<le> r4" "r4 < 365 * k + 365" unfolding k_def by linarith+
  have "0 \<le> r4 - 365 * min 3 k \<and> r4 - 365 * min 3 k \<le> 365"
    using r4 k by (simp add: min_def)
  moreover have "snd (marchYear day) = r4 - 365 * min 3 k"
    unfolding marchYear_def Let_def snd_conv k_def r4_def r_def ..
  ultimately show ?thesis by simp
qed

lemma div_shift:
  fixes a b c :: int
  assumes "b \<noteq> 0"
  shows "(a - b * c) div b = a div b - c"
  using div_mult_self2 [OF assms, of a "- c"] by simp

lemma DayFromYear_marchDays: "DayFromYear y = marchDays (y - 1) + 306 - 719468"
proof -
  define A where "A = (y - 1) div 4"
  define B where "B = (y - 1) div 100"
  define C where "C = (y - 1) div 400"
  have "y - 1969 = (y - 1) - 4 * 492" "y - 1901 = (y - 1) - 100 * 19"
    "y - 1601 = (y - 1) - 400 * 4"
    by simp_all
  then have "(y - 1969) div 4 = A - 492" "(y - 1901) div 100 = B - 19"
    "(y - 1601) div 400 = C - 4"
    unfolding A_def B_def C_def
    by (simp_all only: div_shift [of 4] div_shift [of 100] div_shift [of 400])
  then have "DayFromYear y = 365 * (y - 1970) + (A - 492) - (B - 19) + (C - 4)"
    by (simp only: DayFromYear_def)
  moreover have "marchDays (y - 1) = 365 * (y - 1) + A - B + C"
    unfolding marchDays_def A_def B_def C_def ..
  ultimately show ?thesis by simp
qed

lemma div_pred:
  fixes y b :: int
  assumes "0 < b"
  shows "y div b - (y - 1) div b = (if y mod b = 0 then 1 else 0)"
proof -
  define q where "q = y div b"
  define r where "r = y mod b"
  have y: "y = b * q + r" and r: "0 \<le> r" "r < b"
    using assms by (simp_all add: q_def r_def)
  show ?thesis
  proof (cases "r = 0")
    case True
    have "y - 1 = b * (q - 1) + (b - 1)" using y True by (simp add: algebra_simps)
    then have "(y - 1) div b = q - 1"
      by (rule int_div_pos_eq) (use assms in simp_all)
    then show ?thesis using True by (simp add: q_def r_def)
  next
    case False
    have "y - 1 = b * q + (r - 1)" using y by simp
    then have "(y - 1) div b = q"
      by (rule int_div_pos_eq) (use r False in simp_all)
    then show ?thesis using False by (simp add: q_def r_def)
  qed
qed

lemma marchDays_step: "marchDays y - marchDays (y - 1) = DaysInYear y"
proof -
  have d4: "y div 4 - (y - 1) div 4 = (if y mod 4 = 0 then 1 else 0)"
    by (rule div_pred) simp
  have d100: "y div 100 - (y - 1) div 100 = (if y mod 100 = 0 then 1 else 0)"
    by (rule div_pred) simp
  have d400: "y div 400 - (y - 1) div 400 = (if y mod 400 = 0 then 1 else 0)"
    by (rule div_pred) simp
  have a: "y mod 100 = 0 \<Longrightarrow> y mod 4 = 0"
    using mod_mod_cancel [of 4 100 y] by simp
  have b: "y mod 400 = 0 \<Longrightarrow> y mod 100 = 0"
    using mod_mod_cancel [of 100 400 y] by simp
  have "marchDays y - marchDays (y - 1)
      = 365 + (y div 4 - (y - 1) div 4) - (y div 100 - (y - 1) div 100)
          + (y div 400 - (y - 1) div 400)"
    by (simp add: marchDays_def algebra_simps)
  then show ?thesis
    unfolding d4 d100 d400 using a b by (auto simp: DaysInYear_def)
qed

lemma marchYear_decomp:
  assumes "marchYear n = (Y, doy)"
  shows "n + 719468 = marchDays Y + doy \<and> 0 \<le> doy \<and> doy < DaysInYear (Y + 1)"
proof -
  define z where "z = n + 719468"
  define era where "era = z div 146097"
  define doe where "doe = z mod 146097"
  define k1 where "k1 = doe div 36524"
  define c where "c = min 3 k1"
  define r where "r = doe - 36524 * c"
  define q where "q = r div 1461"
  define r4 where "r4 = r mod 1461"
  define k2 where "k2 = r4 div 365"
  define a where "a = min 3 k2"
  have "marchYear n = (400 * era + 100 * c + 4 * q + a, r4 - 365 * a)"
    unfolding marchYear_def Let_def a_def k2_def r4_def q_def r_def c_def k1_def doe_def
      era_def z_def ..
  with assms have Y: "Y = 400 * era + 100 * c + 4 * q + a" and doy: "doy = r4 - 365 * a"
    by simp_all
  have z: "z = 146097 * era + doe" and doe: "0 \<le> doe" "doe \<le> 146096"
    unfolding era_def doe_def by simp_all
  have k1: "36524 * k1 \<le> doe" "doe < 36524 * k1 + 36524"
    unfolding k1_def by linarith+
  from doe k1 have k1b: "0 \<le> k1" "k1 \<le> 4" by linarith+
  then have c: "0 \<le> c" "c \<le> 3" by (simp_all add: c_def)
  have "0 \<le> r \<and> r \<le> 36524 \<and> (r = 36524 \<longrightarrow> c = 3)"
  proof (cases "k1 \<le> 3")
    case True
    then have "c = k1" by (simp add: c_def)
    with k1 show ?thesis unfolding r_def by simp
  next
    case False
    with k1b have "k1 = 4" by simp
    then have "c = 3" by (simp add: c_def)
    with k1 doe \<open>k1 = 4\<close> show ?thesis unfolding r_def by simp
  qed
  then have rr: "0 \<le> r" "r \<le> 36524" and r_last: "r = 36524 \<longrightarrow> c = 3" by simp_all
  have r: "r = 1461 * q + r4" and r4: "0 \<le> r4" "r4 \<le> 1460"
    unfolding q_def r4_def by simp_all
  have q: "0 \<le> q" "q \<le> 24" using rr r r4 by linarith+
  have k2: "365 * k2 \<le> r4" "r4 < 365 * k2 + 365"
    unfolding k2_def by linarith+
  from r4 k2 have k2b: "0 \<le> k2" "k2 \<le> 4" by linarith+
  then have a: "0 \<le> a" "a \<le> 3" by (simp_all add: a_def)
  have "0 \<le> doy \<and> doy \<le> 365 \<and> (doy = 365 \<longrightarrow> r4 = 1460 \<and> a = 3)"
  proof (cases "k2 \<le> 3")
    case True
    then have "a = k2" by (simp add: a_def)
    with k2 show ?thesis unfolding doy by simp
  next
    case False
    with k2b have "k2 = 4" by simp
    then have "a = 3" by (simp add: a_def)
    with k2 r4 \<open>k2 = 4\<close> show ?thesis unfolding doy by simp
  qed
  then have d: "0 \<le> doy" "doy \<le> 365" and d_last: "doy = 365 \<longrightarrow> r4 = 1460 \<and> a = 3"
    by simp_all
  have "Y = 4 * (100 * era + 25 * c + q) + a" using Y by simp
  then have Y4: "Y div 4 = 100 * era + 25 * c + q"
    by (rule int_div_pos_eq) (use a in simp_all)
  have "Y = 100 * (4 * era + c) + (4 * q + a)" using Y by simp
  then have Y100: "Y div 100 = 4 * era + c"
    by (rule int_div_pos_eq) (use a q in simp_all)
  have "Y = 400 * era + (100 * c + 4 * q + a)" using Y by simp
  then have Y400: "Y div 400 = era"
    by (rule int_div_pos_eq) (use a q c in simp_all)
  have m: "marchDays Y = 146097 * era + 36524 * c + 1461 * q + 365 * a"
    unfolding marchDays_def Y4 Y100 Y400 using Y by simp
  have sum: "n + 719468 = marchDays Y + doy"
    using z r m unfolding z_def r_def doy by simp
  have len: "doy < DaysInYear (Y + 1)"
  proof (cases "doy = 365")
    case False
    have "365 \<le> DaysInYear (Y + 1)" by (simp add: DaysInYear_def)
    with False d show ?thesis by simp
  next
    case True
    with d_last have r4l: "r4 = 1460" and al: "a = 3" by simp_all
    have Y1: "Y + 1 = 4 * (100 * era + 25 * c + q + 1)" using Y al by simp
    have m4: "(Y + 1) mod 4 = 0" unfolding Y1 by simp
    have "DaysInYear (Y + 1) = 366"
    proof (cases "q = 24")
      case True
      with r r4l have "r = 36524" by simp
      with r_last have "c = 3" by simp
      with Y al True have "Y + 1 = 400 * (era + 1)" by simp
      then have "(Y + 1) mod 400 = 0" by simp
      moreover from this have "(Y + 1) mod 100 = 0"
        using mod_mod_cancel [of 100 400 "Y + 1"] by simp
      ultimately show ?thesis using m4 by (simp add: DaysInYear_def)
    next
      case False
      have "Y + 1 = 100 * (4 * era + c) + (4 * q + 4)" using Y al by simp
      then have "(Y + 1) mod 100 = 4 * q + 4"
        by (rule int_mod_pos_eq) (use q False in simp_all)
      with q have "(Y + 1) mod 100 \<noteq> 0" by simp
      then show ?thesis using m4 by (simp add: DaysInYear_def)
    qed
    with True show ?thesis by simp
  qed
  from sum d(1) len show ?thesis by simp
qed

lemma march_month_table:
  assumes "0 \<le> doy" "doy < 306" and l: "0 \<le> l"
  shows "monthOfDay (doy + 59 + l) l = (5 * doy + 2) div 153 + 2
    \<and> dateOfDay (doy + 59 + l) l = doy - (153 * ((5 * doy + 2) div 153) + 2) div 5 + 1"
proof -
  define mp where "mp = (5 * doy + 2) div 153"
  have mp: "153 * mp \<le> 5 * doy + 2" "5 * doy + 2 < 153 * mp + 153"
    unfolding mp_def by linarith+
  with assms(1,2) have "0 \<le> mp" "mp \<le> 9" by linarith+
  then consider "mp = 0" | "mp = 1" | "mp = 2" | "mp = 3" | "mp = 4"
    | "mp = 5" | "mp = 6" | "mp = 7" | "mp = 8" | "mp = 9"
    by atomize_elim arith
  then show ?thesis
  proof cases
    case 1
    then have mpk: "(5 * doy + 2) div 153 = 0" by (simp add: mp_def)
    from mp 1 have "0 \<le> 5 * doy + 2" "5 * doy + 2 < 153" by simp_all
    then have "0 \<le> doy" "doy \<le> 30" by linarith+
    with l show ?thesis unfolding mpk by (simp add: monthOfDay_def dateOfDay_def)
  next
    case 2
    then have mpk: "(5 * doy + 2) div 153 = 1" by (simp add: mp_def)
    from mp 2 have "153 \<le> 5 * doy + 2" "5 * doy + 2 < 306" by simp_all
    then have "31 \<le> doy" "doy \<le> 60" by linarith+
    with l show ?thesis unfolding mpk by (simp add: monthOfDay_def dateOfDay_def)
  next
    case 3
    then have mpk: "(5 * doy + 2) div 153 = 2" by (simp add: mp_def)
    from mp 3 have "306 \<le> 5 * doy + 2" "5 * doy + 2 < 459" by simp_all
    then have "61 \<le> doy" "doy \<le> 91" by linarith+
    with l show ?thesis unfolding mpk by (simp add: monthOfDay_def dateOfDay_def)
  next
    case 4
    then have mpk: "(5 * doy + 2) div 153 = 3" by (simp add: mp_def)
    from mp 4 have "459 \<le> 5 * doy + 2" "5 * doy + 2 < 612" by simp_all
    then have "92 \<le> doy" "doy \<le> 121" by linarith+
    with l show ?thesis unfolding mpk by (simp add: monthOfDay_def dateOfDay_def)
  next
    case 5
    then have mpk: "(5 * doy + 2) div 153 = 4" by (simp add: mp_def)
    from mp 5 have "612 \<le> 5 * doy + 2" "5 * doy + 2 < 765" by simp_all
    then have "122 \<le> doy" "doy \<le> 152" by linarith+
    with l show ?thesis unfolding mpk by (simp add: monthOfDay_def dateOfDay_def)
  next
    case 6
    then have mpk: "(5 * doy + 2) div 153 = 5" by (simp add: mp_def)
    from mp 6 have "765 \<le> 5 * doy + 2" "5 * doy + 2 < 918" by simp_all
    then have "153 \<le> doy" "doy \<le> 183" by linarith+
    with l show ?thesis unfolding mpk by (simp add: monthOfDay_def dateOfDay_def)
  next
    case 7
    then have mpk: "(5 * doy + 2) div 153 = 6" by (simp add: mp_def)
    from mp 7 have "918 \<le> 5 * doy + 2" "5 * doy + 2 < 1071" by simp_all
    then have "184 \<le> doy" "doy \<le> 213" by linarith+
    with l show ?thesis unfolding mpk by (simp add: monthOfDay_def dateOfDay_def)
  next
    case 8
    then have mpk: "(5 * doy + 2) div 153 = 7" by (simp add: mp_def)
    from mp 8 have "1071 \<le> 5 * doy + 2" "5 * doy + 2 < 1224" by simp_all
    then have "214 \<le> doy" "doy \<le> 244" by linarith+
    with l show ?thesis unfolding mpk by (simp add: monthOfDay_def dateOfDay_def)
  next
    case 9
    then have mpk: "(5 * doy + 2) div 153 = 8" by (simp add: mp_def)
    from mp 9 have "1224 \<le> 5 * doy + 2" "5 * doy + 2 < 1377" by simp_all
    then have "245 \<le> doy" "doy \<le> 274" by linarith+
    with l show ?thesis unfolding mpk by (simp add: monthOfDay_def dateOfDay_def)
  next
    case 10
    then have mpk: "(5 * doy + 2) div 153 = 9" by (simp add: mp_def)
    from mp 10 have "1377 \<le> 5 * doy + 2" "5 * doy + 2 < 1530" by simp_all
    then have "275 \<le> doy" "doy \<le> 305" by linarith+
    with l show ?thesis unfolding mpk by (simp add: monthOfDay_def dateOfDay_def)
  qed
qed

lemma DaysInYear_cases: "DaysInYear y = 365 \<or> DaysInYear y = 366"
  by (simp add: DaysInYear_def)

text \<open>The fields the getters compute are the ones the ECMAScript definitions give: the year
  is the one whose first day is the last at or before the day of \<open>t\<close>, and month and day of
  the month are the entries of the tables.\<close>

lemma getters_follow_ecmascript:
  "DayFromYear (YearFromTime t) \<le> Day t
   \<and> Day t < DayFromYear (YearFromTime t + 1)
   \<and> MonthFromTime t = monthOfDay (DayWithinYear t) (InLeapYear t)
   \<and> DateFromTime t = dateOfDay (DayWithinYear t) (InLeapYear t)"
proof -
  define n where "n = Day t"
  obtain Y doy where my: "marchYear n = (Y, doy)" by (cases "marchYear n") auto
  from marchYear_decomp [OF my] have
    sum: "n + 719468 = marchDays Y + doy" and d0: "0 \<le> doy" and d1: "doy < DaysInYear (Y + 1)"
    by simp_all
  define mp where "mp = (5 * doy + 2) div 153"
  have mp: "153 * mp \<le> 5 * doy + 2" "5 * doy + 2 < 153 * mp + 153"
    unfolding mp_def by linarith+
  have civ: "civil n = (if (if mp < 10 then mp + 3 else mp - 9) \<le> 2 then Y + 1 else Y,
      (if mp < 10 then mp + 3 else mp - 9) - 1, doy - (153 * mp + 2) div 5 + 1)"
    by (simp add: civil_def my Let_def mp_def)
  have next_year: "marchDays (Y + 1) = marchDays Y + DaysInYear (Y + 1)"
    using marchDays_step [of "Y + 1"] by simp
  have this_year: "marchDays Y = marchDays (Y - 1) + DaysInYear Y"
    using marchDays_step [of Y] by simp
  show ?thesis
  proof (cases "doy < 306")
    case True
    with mp have mp9: "mp < 10" by linarith
    from mp d0 have mp0: "0 \<le> mp" by linarith
    have y: "YearFromTime t = Y" and m: "MonthFromTime t = mp + 2"
      and d: "DateFromTime t = doy - (153 * mp + 2) div 5 + 1"
      using mp9 mp0 by (simp_all add: YearFromTime_def MonthFromTime_def DateFromTime_def
          n_def [symmetric] civ)
    define l where "l = DaysInYear Y - 365"
    have l: "0 \<le> l" using DaysInYear_cases [of Y] by (auto simp: l_def)
    have leap: "InLeapYear t = l"
      using DaysInYear_cases [of Y] by (auto simp: InLeapYear_def y l_def)
    have dfy: "DayFromYear Y = marchDays (Y - 1) + 306 - 719468"
      by (rule DayFromYear_marchDays)
    have dfy1: "DayFromYear (Y + 1) = marchDays Y + 306 - 719468"
      using DayFromYear_marchDays [of "Y + 1"] by simp
    have dwy: "DayWithinYear t = doy + 59 + l"
      using sum this_year dfy by (simp add: DayWithinYear_def y n_def [symmetric] l_def)
    from march_month_table [OF d0 True l] have
      "monthOfDay (doy + 59 + l) l = mp + 2"
      "dateOfDay (doy + 59 + l) l = doy - (153 * mp + 2) div 5 + 1"
      by (simp_all add: mp_def)
    moreover have "DayFromYear Y \<le> n" "n < DayFromYear (Y + 1)"
      using sum this_year dfy dfy1 True d0 l unfolding l_def by linarith+
    ultimately show ?thesis
      by (simp add: y m d leap dwy n_def [symmetric])
  next
    case False
    with mp have mp10: "10 \<le> mp" by linarith
    from d1 DaysInYear_cases [of "Y + 1"] have d366: "doy \<le> 365" by auto
    with mp have mp11: "mp \<le> 11" by linarith
    have y: "YearFromTime t = Y + 1" and m: "MonthFromTime t = mp - 10"
      and d: "DateFromTime t = doy - (153 * mp + 2) div 5 + 1"
      using mp10 mp11 by (simp_all add: YearFromTime_def MonthFromTime_def DateFromTime_def
          n_def [symmetric] civ)
    define l where "l = DaysInYear (Y + 1) - 365"
    have l: "0 \<le> l" using DaysInYear_cases [of "Y + 1"] by (auto simp: l_def)
    have leap: "InLeapYear t = l"
      using DaysInYear_cases [of "Y + 1"] by (auto simp: InLeapYear_def y l_def)
    have dfy1: "DayFromYear (Y + 1) = marchDays Y + 306 - 719468"
      using DayFromYear_marchDays [of "Y + 1"] by simp
    have dfy2: "DayFromYear (Y + 2) = marchDays (Y + 1) + 306 - 719468"
      using DayFromYear_marchDays [of "Y + 2"] by (simp add: add.commute)
    have dwy: "DayWithinYear t = doy - 306"
      using sum dfy1 by (simp add: DayWithinYear_def y n_def [symmetric])
    have bounds: "DayFromYear (Y + 1) \<le> n" "n < DayFromYear (Y + 2)"
      using sum next_year dfy1 dfy2 False d1 by linarith+
    have table: "monthOfDay (doy - 306) l = mp - 10
        \<and> dateOfDay (doy - 306) l = doy - (153 * mp + 2) div 5 + 1"
    proof (cases "mp = 10")
      case True
      with mp have "doy \<le> 336" by linarith
      with False True show ?thesis by (simp add: monthOfDay_def dateOfDay_def)
    next
      case False
      with mp10 mp11 have eleven: "mp = 11" by simp
      with mp have "337 \<le> doy" by linarith
      moreover have "doy < 365 + l" using d1 by (simp add: l_def)
      ultimately show ?thesis using eleven l by (simp add: monthOfDay_def dateOfDay_def)
    qed
    moreover from bounds(2) have "n < DayFromYear (Y + 1 + 1)"
      by (simp add: add.commute)
    ultimately show ?thesis using bounds(1)
      by (simp add: y m d leap dwy n_def [symmetric])
  qed
qed

lemma civil_bounds:
  assumes "civil day = (y, m, d)"
  shows "0 \<le> m \<and> m \<le> 11 \<and> 1 \<le> d \<and> d \<le> 31"
proof -
  define doy where "doy = snd (marchYear day)"
  define mp where "mp = (5 * doy + 2) div 153"
  define e where "e = (153 * mp + 2) div 5"
  have doy: "0 \<le> doy" "doy \<le> 365"
    using marchYear_doy [of day] by (simp_all add: doy_def)
  have mp: "153 * mp \<le> 5 * doy + 2" "5 * doy + 2 < 153 * mp + 153"
    unfolding mp_def by linarith+
  have e: "5 * e \<le> 153 * mp + 2" "153 * mp + 2 < 5 * e + 5"
    unfolding e_def by linarith+
  have m: "m = (if mp < 10 then mp + 3 else mp - 9) - 1"
    using assms by (auto simp add: civil_def Let_def split_def doy_def mp_def)
  have d: "d = doy - e + 1"
    using assms by (simp add: civil_def Let_def split_def doy_def mp_def e_def)
  have "1 \<le> d \<and> d \<le> 31" unfolding d using mp e by linarith
  moreover have "0 \<le> m \<and> m \<le> 11" unfolding m using mp doy by auto
  ultimately show ?thesis by simp
qed

subsection \<open>Padding\<close>

lemma pad_two_digits:
  assumes "0 \<le> n" "n < 100"
  shows "pad (Number n) = [digit_char (nat n div 10), digit_char (nat n mod 10)]"
proof (cases "n < 10")
  case True
  then have "decimal (nat n) = [digit_char (nat n)]"
    using assms by (subst decimal.simps) simp
  moreover have "digit_char (nat n div 10) = CHR ''0''"
    using True assms by (simp add: digit_char_def)
  ultimately show ?thesis using assms True by (simp add: pad_def padStart_def)
next
  case False
  then have "nat n div 10 < 10" using assms by linarith
  then have "decimal (nat n div 10) = [digit_char (nat n div 10)]"
    by (subst decimal.simps) simp
  then have "decimal (nat n) = [digit_char (nat n div 10), digit_char (nat n mod 10)]"
    using False assms by (subst decimal.simps) simp
  then show ?thesis using assms by (simp add: pad_def padStart_def)
qed

lemma pad_length_2: "0 \<le> n \<Longrightarrow> n < 100 \<Longrightarrow> length (pad (Number n)) = 2"
  by (simp add: pad_two_digits)

lemma date_fields_two_digits:
  "length (pad (js_plus (getUTCMonth (TimeValue t)) (Number 1))) = 2"
  "length (pad (getUTCDate (TimeValue t))) = 2"
  "length (pad (getUTCHours (TimeValue t))) = 2"
  "length (pad (getUTCMinutes (TimeValue t))) = 2"
proof -
  obtain y m d where c: "civil (Day t) = (y, m, d)" by (cases "civil (Day t)") auto
  note b = civil_bounds [OF c]
  show "length (pad (js_plus (getUTCMonth (TimeValue t)) (Number 1))) = 2"
    using b c by (simp add: MonthFromTime_def pad_length_2)
  show "length (pad (getUTCDate (TimeValue t))) = 2"
    using b c by (simp add: DateFromTime_def pad_length_2)
  show "length (pad (getUTCHours (TimeValue t))) = 2"
    by (simp add: HourFromTime_def pad_length_2)
  show "length (pad (getUTCMinutes (TimeValue t))) = 2"
    by (simp add: MinFromTime_def pad_length_2)
qed

lemma model_run_fields:
  "map (\<lambda>f. f (TimeValue 1714543200000))
     [getUTCFullYear, getUTCMonth, getUTCDate, getUTCHours, getUTCMinutes, getUTCSeconds,
      getUTCMilliseconds]
   = map Number [2024, 4, 1, 6, 0, 0, 0]"
  by code_simp

lemma display_time_fields:
  "map (\<lambda>f. f (TimeValue 1714546800000))
     [getUTCFullYear, getUTCMonth, getUTCDate, getUTCHours, getUTCMinutes, getUTCSeconds,
      getUTCMilliseconds]
   = map Number [2024, 4, 1, 7, 0, 0, 0]"
  by code_simp

section \<open>The overlay URL\<close>

text \<open>
  Claim C3. The time value 1714543200000 is the model run 2024-05-01T06:00Z and
  1714546800000 is the display time 2024-05-01T07:00Z (their UTC fields are listed in the
  statement; months count from 0, and the fields are those of the ECMAScript definitions,
  as shown above). For the domain \<^verbatim>\<open>dwd_icon_d2\<close> and the variable
  \<^verbatim>\<open>temperature_2m\<close>, \<^const>\<open>getOMUrl\<close> returns exactly the URL of the specification. For
  every valid date, month, day, hours and minutes are each written with exactly two
  characters.
\<close>

theorem C3_getOMUrl_example:
  "getOMUrl ''dwd_icon_d2'' ''temperature_2m'' (TimeValue 1714543200000) (TimeValue 1714546800000)
     = ''https://s3.servert.ch/data_spatial/dwd_icon_d2/2024/05/01/0600Z/2024-05-01T0700.om?variable=temperature_2m''
   \<and> map (\<lambda>f. f (TimeValue 1714543200000))
         [getUTCFullYear, getUTCMonth, getUTCDate, getUTCHours, getUTCMinutes, getUTCSeconds,
          getUTCMilliseconds]
       = map Number [2024, 4, 1, 6, 0, 0, 0]
   \<and> map (\<lambda>f. f (TimeValue 1714546800000))
         [getUTCFullYear, getUTCMonth, getUTCDate, getUTCHours, getUTCMinutes, getUTCSeconds,
          getUTCMilliseconds]
       = map Number [2024, 4, 1, 7, 0, 0, 0]
   \<and> length (pad (js_plus (getUTCMonth (TimeValue t)) (Number 1))) = 2
   \<and> length (pad (getUTCDate (TimeValue t))) = 2
   \<and> length (pad (getUTCHours (TimeValue t))) = 2
   \<and> length (pad (getUTCMinutes (TimeValue t))) = 2"
proof -
  have "getOMUrl ''dwd_icon_d2'' ''temperature_2m'' (TimeValue 1714543200000)
          (TimeValue 1714546800000)
     = ''https://s3.servert.ch/data_spatial/dwd_icon_d2/2024/05/01/0600Z/2024-05-01T0700.om?variable=temperature_2m''"
    by code_simp
  then show ?thesis
    using model_run_fields display_time_fields date_fields_two_digits [of t]
    by (intro conjI)
qed

text \<open>
  Claim C8. The base endpoint depends on the domain identifier alone, by the rule of
  \<^const>\<open>specEndpoint\<close>: the overlay URL and the URL of the metadata request both start with
  the endpoint this rule gives. The metadata fetch requests exactly the URL built with that
  endpoint and returns what it finds there: the document of a response with a status from
  200 to 299 and a JSON body, and an error otherwise; it reads the network at no other URL.
  For the domain \<^verbatim>\<open>gfs_global\<close> the endpoint is the default one,
  \<^verbatim>\<open>https://map-tiles.open-meteo.com\<close>, and the overlay URL does not start with the
  institutional one; a document served at the default endpoint only is fetched for
  \<^verbatim>\<open>gfs_global\<close>, one served at the institutional endpoint only is not, and a document served
  at the institutional endpoint only is fetched for \<^verbatim>\<open>dwd_icon_d2\<close>.
\<close>

theorem C8_endpoint_rule:
  "getOMUrl domainValue v mr st
     = specEndpoint domainValue @ ''/data_spatial/'' @ domainValue @ ''/'' @ fmtModelRun mr
         @ ''/'' @ fmtSelectedTime st @ ''.om?variable='' @ v
   \<and> metaDataUrl domainValue
     = specEndpoint domainValue @ ''/data_spatial/'' @ domainValue @ ''/latest.json''
   \<and> fetchMetaData net domainValue
     = (case net (specEndpoint domainValue @ ''/data_spatial/'' @ domainValue @ ''/latest.json'') of
          Inl e \<Rightarrow> Inl e
        | Inr response \<Rightarrow>
            if ok response
            then (case body response of None \<Rightarrow> Inl SyntaxError | Some meta \<Rightarrow> Inr meta)
            else Inl (Error (''HTTP '' @ decimal (status response))))
   \<and> fetchMetaData net domainValue
     = fetchMetaData (\<lambda>url. if url = metaDataUrl domainValue then net url else Inl TypeError)
         domainValue
   \<and> fetchMetaData
         (\<lambda>url. if url = ''https://map-tiles.open-meteo.com/data_spatial/gfs_global/latest.json''
                then Inr \<lparr>status = 200, body = Some m\<rparr> else Inl TypeError)
         ''gfs_global'' = Inr m
   \<and> fetchMetaData
         (\<lambda>url. if url = ''https://s3.servert.ch/data_spatial/gfs_global/latest.json''
                then Inr \<lparr>status = 200, body = Some m\<rparr> else Inl TypeError)
         ''gfs_global'' = Inl TypeError
   \<and> fetchMetaData
         (\<lambda>url. if url = ''https://s3.servert.ch/data_spatial/dwd_icon_d2/latest.json''
                then Inr \<lparr>status = 200, body = Some m\<rparr> else Inl TypeError)
         ''dwd_icon_d2'' = Inr m
   \<and> specEndpoint ''gfs_global'' = ''https://map-tiles.open-meteo.com''
   \<and> startsWith (getOMUrl ''gfs_global'' v mr st)
         ''https://map-tiles.open-meteo.com/data_spatial/gfs_global/''
   \<and> startsWith (metaDataUrl ''gfs_global'')
         ''https://map-tiles.open-meteo.com/data_spatial/gfs_global/''
   \<and> \<not> startsWith (getOMUrl ''gfs_global'' v mr st) ''https://s3.servert.ch''"
proof (intro conjI)
  show "getOMUrl domainValue v mr st
     = specEndpoint domainValue @ ''/data_spatial/'' @ domainValue @ ''/'' @ fmtModelRun mr
         @ ''/'' @ fmtSelectedTime st @ ''.om?variable='' @ v"
    by (simp add: getOMUrl_def specEndpoint_def Let_def)
  show "metaDataUrl domainValue
     = specEndpoint domainValue @ ''/data_spatial/'' @ domainValue @ ''/latest.json''"
    by (simp add: metaDataUrl_def specEndpoint_def Let_def)
  show "fetchMetaData net domainValue
     = (case net (specEndpoint domainValue @ ''/data_spatial/'' @ domainValue @ ''/latest.json'') of
          Inl e \<Rightarrow> Inl e
        | Inr response \<Rightarrow>
            if ok response
            then (case body response of None \<Rightarrow> Inl SyntaxError | Some meta \<Rightarrow> Inr meta)
            else Inl (Error (''HTTP '' @ decimal (status response))))"
    by (simp add: fetchMetaData_def metaDataUrl_def specEndpoint_def Let_def
        split: sum.splits option.splits)
  show "fetchMetaData net domainValue
     = fetchMetaData (\<lambda>url. if url = metaDataUrl domainValue then net url else Inl TypeError)
         domainValue"
    by (simp add: fetchMetaData_def)
  show "fetchMetaData
         (\<lambda>url. if url = ''https://map-tiles.open-meteo.com/data_spatial/gfs_global/latest.json''
                then Inr \<lparr>status = 200, body = Some m\<rparr> else Inl TypeError)
         ''gfs_global'' = Inr m"
    by (simp add: fetchMetaData_def metaDataUrl_def Let_def ok_def)
  show "fetchMetaData
         (\<lambda>url. if url = ''https://s3.servert.ch/data_spatial/gfs_global/latest.json''
                then Inr \<lparr>status = 200, body = Some m\<rparr> else Inl TypeError)
         ''gfs_global'' = Inl TypeError"
    by (simp add: fetchMetaData_def metaDataUrl_def Let_def ok_def)
  show "fetchMetaData
         (\<lambda>url. if url = ''https://s3.servert.ch/data_spatial/dwd_icon_d2/latest.json''
                then Inr \<lparr>status = 200, body = Some m\<rparr> else Inl TypeError)
         ''dwd_icon_d2'' = Inr m"
    by (simp add: fetchMetaData_def metaDataUrl_def Let_def ok_def)
  show "specEndpoint ''gfs_global'' = ''https://map-tiles.open-meteo.com''"
    by (simp add: specEndpoint_def)
  show "startsWith (getOMUrl ''gfs_global'' v mr st)
         ''https://map-tiles.open-meteo.com/data_spatial/gfs_global/''"
    by (simp add: getOMUrl_def Let_def)
  show "startsWith (metaDataUrl ''gfs_global'')
         ''https://map-tiles.open-meteo.com/data_spatial/gfs_global/''"
    by (simp add: metaDataUrl_def Let_def)
  show "\<not> startsWith (getOMUrl ''gfs_global'' v mr st) ''https://s3.servert.ch''"
    by (simp add: getOMUrl_def Let_def)
qed

section \<open>Level groups\<close>

lemma specLevelGroup_Nil [simp]: "specLevelGroup env p [] = []"
  by (simp add: specLevelGroup_def)

lemma specLevelGroup_Cons:
  "specLevelGroup env p (v # vs) =
     (if hasLevels env v \<and> getLevelPrefix env v = Some p
      then varOptionOf env v # specLevelGroup env p vs else specLevelGroup env p vs)"
  by (simp add: specLevelGroup_def)

lemma opt_value_varOptionOf [simp]: "opt_value (varOptionOf env v) = v"
  by (auto simp: varOptionOf_def split: option.splits dest: find_Some_iff [THEN iffD1])

lemma specLevelGroup_values:
  "opt_value ` set (specLevelGroup env p vars)
     = {v \<in> set vars. hasLevels env v \<and> getLevelPrefix env v = Some p}"
  by (auto simp: specLevelGroup_def image_iff)

subsection \<open>One push\<close>

lemma pushGroup_Inr:
  assumes "pushGroup groups p opt = Inr g'"
  shows "map_of g' = (map_of groups)(p \<mapsto> (case map_of groups p of None \<Rightarrow> [opt] | Some es \<Rightarrow> es @ [opt]))"
    and "distinct (map fst groups) \<Longrightarrow> distinct (map fst g')"
  using assms
  by (auto simp: pushGroup_def getProperty_def Let_def update_conv' distinct_update
      split: option.splits if_splits property.splits)

lemma pushGroup_total:
  assumes "p \<notin> set Object_prototype_keys"
  shows "\<exists>g'. pushGroup groups p opt = Inr g'"
  using assms
  by (auto simp: pushGroup_def getProperty_def Let_def update_conv' split: option.splits)

lemma pushGroup_keys:
  assumes "pushGroup groups p opt = Inr g'"
    and "\<forall>k \<in> fst ` set groups. k \<notin> set Object_prototype_keys"
  shows "p \<notin> set Object_prototype_keys \<and> (\<forall>k \<in> fst ` set g'. k \<notin> set Object_prototype_keys)"
proof -
  have p: "p \<notin> set Object_prototype_keys"
  proof (cases "map_of groups p")
    case None
    with assms(1) show ?thesis
      by (auto simp: pushGroup_def getProperty_def Let_def split: if_splits)
  next
    case (Some es)
    then have "(p, es) \<in> set groups" by (rule map_of_SomeD)
    then have "p \<in> fst ` set groups" by force
    with assms(2) show ?thesis by blast
  qed
  have "fst ` set g' = dom (map_of g')" by (simp add: dom_map_of_conv_image_fst)
  also have "\<dots> = insert p (dom (map_of groups))"
    by (simp add: pushGroup_Inr(1) [OF assms(1)])
  also have "\<dots> = insert p (fst ` set groups)" by (simp add: dom_map_of_conv_image_fst)
  finally show ?thesis using p assms(2) by auto
qed

subsection \<open>The loop of \<open>levelGroupsList\<close>\<close>

text \<open>The loop adds to each group already present, and creates the others, exactly the
  entries of \<^const>\<open>specLevelGroup\<close>; the accumulator is generalised.\<close>

lemma levelGroupsLoop_map_of:
  "levelGroupsLoop env groups vars = Inr g \<Longrightarrow>
     map_of g p =
       (case map_of groups p of
          None \<Rightarrow> if specLevelGroup env p vars = [] then None
                  else Some (specLevelGroup env p vars)
        | Some es \<Rightarrow> Some (es @ specLevelGroup env p vars))"
proof (induction vars arbitrary: groups)
  case Nil
  then show ?case by (simp split: option.splits)
next
  case (Cons v vars)
  show ?case
  proof (cases "hasLevels env v \<and> getLevelPrefix env v \<noteq> None")
    case False
    then have eq: "specLevelGroup env p (v # vars) = specLevelGroup env p vars"
      by (auto simp: specLevelGroup_Cons)
    from False Cons.prems have "levelGroupsLoop env groups vars = Inr g"
      by (auto split: option.splits)
    then show ?thesis unfolding eq by (rule Cons.IH)
  next
    case True
    then obtain q where q: "getLevelPrefix env v = Some q" by auto
    with True Cons.prems obtain g1 where
      g1: "pushGroup groups q (varOptionOf env v) = Inr g1"
      and rest: "levelGroupsLoop env g1 vars = Inr g"
      by (auto split: sum.splits)
    note ih = Cons.IH [OF rest]
    note m1 = pushGroup_Inr(1) [OF g1]
    show ?thesis
    proof (cases "p = q")
      case False
      then have eq: "specLevelGroup env p (v # vars) = specLevelGroup env p vars"
        using q by (simp add: specLevelGroup_Cons)
      have "map_of g1 p = map_of groups p"
        using False by (simp add: m1)
      then show ?thesis unfolding eq using ih by simp
    next
      case pq: True
      then have eq: "specLevelGroup env p (v # vars)
          = varOptionOf env v # specLevelGroup env p vars"
        using q True by (simp add: specLevelGroup_Cons)
      have "map_of g1 p =
          Some (case map_of groups p of None \<Rightarrow> [varOptionOf env v]
                | Some es \<Rightarrow> es @ [varOptionOf env v])"
        using pq by (simp add: m1)
      then show ?thesis unfolding eq using ih by (simp split: option.splits)
    qed
  qed
qed

lemma levelGroupsLoop_distinct:
  "levelGroupsLoop env groups vars = Inr g \<Longrightarrow> distinct (map fst groups) \<Longrightarrow> distinct (map fst g)"
proof (induction vars arbitrary: groups)
  case Nil
  then show ?case by simp
next
  case (Cons v vars)
  then show ?case
    by (auto split: if_splits option.splits sum.splits dest: pushGroup_Inr(2))
qed

lemma levelGroupsLoop_total:
  "noInheritedPrefix env vars \<Longrightarrow> \<exists>g. levelGroupsLoop env groups vars = Inr g"
proof (induction vars arbitrary: groups)
  case Nil
  then show ?case by simp
next
  case (Cons v vars)
  show ?case
  proof (cases "hasLevels env v \<and> getLevelPrefix env v \<noteq> None")
    case False
    with Cons show ?thesis by (auto simp: noInheritedPrefix_def)
  next
    case True
    then obtain q where q: "getLevelPrefix env v = Some q" by auto
    with True Cons.prems have "q \<notin> set Object_prototype_keys"
      by (simp add: noInheritedPrefix_def)
    from pushGroup_total [OF this] obtain g1 where
      "pushGroup groups q (varOptionOf env v) = Inr g1" by blast
    moreover from Cons.prems have "noInheritedPrefix env vars"
      by (simp add: noInheritedPrefix_def)
    from Cons.IH [OF this, of g1] obtain g where "levelGroupsLoop env g1 vars = Inr g" ..
    ultimately show ?thesis using True q by simp
  qed
qed

lemma levelGroupsLoop_Inr_noInherited:
  "levelGroupsLoop env groups vars = Inr g
     \<Longrightarrow> \<forall>k \<in> fst ` set groups. k \<notin> set Object_prototype_keys
     \<Longrightarrow> noInheritedPrefix env vars"
proof (induction vars arbitrary: groups)
  case Nil
  then show ?case by (simp add: noInheritedPrefix_def)
next
  case (Cons v vars)
  show ?case
  proof (cases "hasLevels env v \<and> getLevelPrefix env v \<noteq> None")
    case False
    with Cons.prems have "levelGroupsLoop env groups vars = Inr g"
      by (auto split: option.splits)
    from Cons.IH [OF this Cons.prems(2)] False show ?thesis
      by (auto simp: noInheritedPrefix_def split: option.splits)
  next
    case True
    then obtain q where q: "getLevelPrefix env v = Some q" by auto
    with True Cons.prems obtain g1 where
      g1: "pushGroup groups q (varOptionOf env v) = Inr g1"
      and rest: "levelGroupsLoop env g1 vars = Inr g"
      by (auto split: sum.splits)
    from pushGroup_keys [OF g1 Cons.prems(2)] have
      "q \<notin> set Object_prototype_keys" "\<forall>k \<in> fst ` set g1. k \<notin> set Object_prototype_keys"
      by blast+
    with Cons.IH [OF rest] q show ?thesis
      by (simp add: noInheritedPrefix_def)
  qed
qed

subsection \<open>\<open>levelGroupsList\<close> on a loaded document\<close>

lemma levelGroupsList_total:
  "noInheritedPrefix env (variables m) \<Longrightarrow> \<exists>groups. levelGroupsList env (Some m) = Inr groups"
  using levelGroupsLoop_total [of env "variables m" "[]"] by (simp add: levelGroupsList_def)

text \<open>The grouping returns a mapping exactly when no extracted prefix is an inherited
  property name; otherwise it throws.\<close>

lemma levelGroupsList_returns_iff:
  "(\<exists>groups. levelGroupsList env (Some m) = Inr groups) \<longleftrightarrow> noInheritedPrefix env (variables m)"
  using levelGroupsLoop_Inr_noInherited [of env "[]" "variables m"] levelGroupsList_total [of env m]
  by (auto simp: levelGroupsList_def)

lemma levelGroupsList_map_of:
  assumes "levelGroupsList env (Some m) = Inr groups"
  shows "map_of groups p =
     (if specLevelGroup env p (variables m) = [] then None
      else Some (specLevelGroup env p (variables m)))"
  using levelGroupsLoop_map_of [of env "[]" "variables m" groups p] assms
  by (simp add: levelGroupsList_def)

lemma levelGroupsList_distinct:
  assumes "levelGroupsList env (Some m) = Inr groups"
  shows "distinct (map fst groups)"
  using levelGroupsLoop_distinct [of env "[]" "variables m" groups] assms
  by (simp add: levelGroupsList_def)

lemma levelGroupsList_entry:
  assumes "levelGroupsList env (Some m) = Inr groups" "(k, es) \<in> set groups"
  shows "es = specLevelGroup env k (variables m)" "es \<noteq> []"
proof -
  have "map_of groups k = Some es"
    using assms levelGroupsList_distinct [OF assms(1)] by simp
  then show "es = specLevelGroup env k (variables m)" "es \<noteq> []"
    using levelGroupsList_map_of [OF assms(1), of k] by (auto split: if_splits)
qed

subsection \<open>The loop of \<open>variableList\<close>\<close>

lemma variableListLoop_set:
  "set (variableListLoop env acc vars) =
     set acc \<union> {v \<in> set vars. \<not> hasLevels env v}
       \<union> {p. \<exists>v \<in> set vars. hasLevels env v \<and> getLevelPrefix env v = Some p}"
proof (induction vars arbitrary: acc)
  case Nil
  then show ?case by simp
next
  case (Cons v vars)
  show ?case
  proof (cases "hasLevels env v")
    case False
    then show ?thesis by (auto simp: Cons.IH)
  next
    case True
    then show ?thesis by (cases "getLevelPrefix env v") (auto simp: Cons.IH)
  qed
qed

text \<open>The names that are not level-bearing are pushed in the order of the document: they
  form a subsequence of the result.\<close>

lemma variableListLoop_subseq:
  "subseq (acc @ filter (\<lambda>v. \<not> hasLevels env v) vars) (variableListLoop env acc vars)"
proof (induction vars arbitrary: acc)
  case Nil
  then show ?case by simp
next
  case (Cons v vars)
  let ?scalars = "filter (\<lambda>v. \<not> hasLevels env v) vars"
  show ?case
  proof (cases "hasLevels env v")
    case False
    then show ?thesis using Cons.IH [of "acc @ [v]"] by simp
  next
    case True
    show ?thesis
    proof (cases "getLevelPrefix env v")
      case None
      with True show ?thesis using Cons.IH [of acc] by simp
    next
      case (Some p)
      show ?thesis
      proof (cases "p \<in> set acc")
        case True
        with \<open>hasLevels env v\<close> Some show ?thesis using Cons.IH [of acc] by simp
      next
        case False
        have "subseq (acc @ ?scalars) ((acc @ [p]) @ ?scalars)"
          by (simp add: subseq_append' list_emb_Cons)
        also have "subseq ((acc @ [p]) @ ?scalars) (variableListLoop env (acc @ [p]) vars)"
          by (rule Cons.IH)
        finally show ?thesis using False \<open>hasLevels env v\<close> Some by simp
      qed
    qed
  qed
qed

text \<open>How often a string \<open>p\<close> occurs in the result, when no name of the document that is not
  level-bearing equals \<open>p\<close>: the loop pushes a prefix only if it is not in the list yet.\<close>

lemma variableListLoop_count:
  assumes "\<forall>v \<in> set vars. \<not> hasLevels env v \<longrightarrow> v \<noteq> p"
  shows "count_list (variableListLoop env acc vars) p =
     (if p \<in> set acc then count_list acc p
      else if \<exists>v \<in> set vars. hasLevels env v \<and> getLevelPrefix env v = Some p then 1 else 0)"
  using assms
proof (induction vars arbitrary: acc)
  case Nil
  then show ?case by simp
next
  case (Cons v vars)
  then have rest: "\<forall>v \<in> set vars. \<not> hasLevels env v \<longrightarrow> v \<noteq> p" by simp
  note ih = Cons.IH [OF rest]
  show ?case
  proof (cases "hasLevels env v")
    case False
    with Cons.prems have "v \<noteq> p" by simp
    with False show ?thesis by (simp add: ih)
  next
    case True
    show ?thesis
    proof (cases "getLevelPrefix env v")
      case None
      with True show ?thesis by (simp add: ih)
    next
      case (Some q)
      show ?thesis
      proof (cases "q \<in> set acc")
        case qin: True
        with True Some show ?thesis by (auto simp: ih)
      next
        case False
        with True Some show ?thesis by (auto simp: ih)
      qed
    qed
  qed
qed

subsection \<open>Names that are not level-bearing\<close>

text \<open>
  Claim C7. A name of the document that does not match the level pattern is an entry of the
  list \<^const>\<open>variableList\<close> returns, unchanged; these names stand in that list in the
  order of the document (they are a subsequence of it); and in every mapping that
  \<^const>\<open>levelGroupsList\<close> returns, the name is the value of no entry of any group. The
  mapping is returned whenever no extracted prefix is an inherited property name.
\<close>

theorem C7_scalar_names:
  assumes "v \<in> set (variables m)" and "\<not> hasLevels env v"
  shows "v \<in> set (variableList env (Some m))
    \<and> subseq (filter (\<lambda>x. \<not> hasLevels env x) (variables m)) (variableList env (Some m))
    \<and> (\<forall>groups k es. levelGroupsList env (Some m) = Inr groups \<and> (k, es) \<in> set groups
          \<longrightarrow> v \<notin> opt_value ` set es)
    \<and> (noInheritedPrefix env (variables m)
          \<longrightarrow> (\<exists>groups. levelGroupsList env (Some m) = Inr groups))"
proof (intro conjI allI impI)
  show "v \<in> set (variableList env (Some m))"
    using assms by (simp add: variableList_def variableListLoop_set)
  show "subseq (filter (\<lambda>x. \<not> hasLevels env x) (variables m)) (variableList env (Some m))"
    using variableListLoop_subseq [of "[]" env "variables m"] by (simp add: variableList_def)
  show "v \<notin> opt_value ` set es"
    if "levelGroupsList env (Some m) = Inr groups \<and> (k, es) \<in> set groups" for groups k es
  proof -
    from that have "es = specLevelGroup env k (variables m)"
      using levelGroupsList_entry(1) by blast
    then show ?thesis using assms(2) by (simp add: specLevelGroup_values)
  qed
  show "\<exists>groups. levelGroupsList env (Some m) = Inr groups"
    if "noInheritedPrefix env (variables m)"
    using that by (rule levelGroupsList_total)
qed

text \<open>The document \<^verbatim>\<open>cloud_cover_850hPa\<close>, \<^verbatim>\<open>cloud_cover\<close>, \<^verbatim>\<open>wind_gusts_10m\<close> in the sample
  environment: \<^verbatim>\<open>cloud_cover\<close> is not level-bearing.\<close>

theorem C7_scalar_names_witness:
  "''cloud_cover'' \<in> set (variableList sampleEnv
       (Some (sampleMeta [''cloud_cover_850hPa'', ''cloud_cover'', ''wind_gusts_10m''])))
   \<and> subseq [''cloud_cover'']
       (variableList sampleEnv
          (Some (sampleMeta [''cloud_cover_850hPa'', ''cloud_cover'', ''wind_gusts_10m''])))
   \<and> ''cloud_cover'' \<notin> opt_value `
         set [\<lparr>opt_value = ''cloud_cover_850hPa'', opt_label = ''cloud_cover_850hPa''\<rparr>]"
proof -
  let ?m = "sampleMeta [''cloud_cover_850hPa'', ''cloud_cover'', ''wind_gusts_10m'']"
  have h1: "''cloud_cover'' \<in> set (variables ?m)"
    by (simp add: sampleMeta_def)
  have h2: "\<not> hasLevels sampleEnv ''cloud_cover''"
    by code_simp
  have scalars: "filter (\<lambda>x. \<not> hasLevels sampleEnv x) (variables ?m) = [''cloud_cover'']"
    by code_simp
  have groups: "levelGroupsList sampleEnv (Some ?m)
      = Inr [(''cloud_cover'',
              [\<lparr>opt_value = ''cloud_cover_850hPa'', opt_label = ''cloud_cover_850hPa''\<rparr>])]"
    by code_simp
  from C7_scalar_names [OF h1 h2] scalars groups show ?thesis
    by auto
qed

subsection \<open>Level-bearing names\<close>

text \<open>
  Claim C6, as the code has it. Take a variable list in which no extracted prefix is an
  inherited property name (otherwise the grouping throws and there is no mapping). Then
  \<^const>\<open>levelGroupsList\<close> returns a mapping in which every key occurs once, and the group
  under a key is exactly the list of the level-bearing names with that extracted prefix, in
  the order of the document. Hence a level-bearing name whose prefix extraction succeeds is
  in the group keyed by its prefix and in no other group, and its prefix is an entry of the
  list of \<^const>\<open>variableList\<close>, exactly once provided no name of the document that is not
  level-bearing equals the prefix. A level-bearing name whose prefix extraction fails is in
  no group.
\<close>

theorem C6_level_groups:
  assumes "noInheritedPrefix env (variables m)"
  shows "\<exists>groups. levelGroupsList env (Some m) = Inr groups
    \<and> distinct (map fst groups)
    \<and> (\<forall>p. map_of groups p =
             (if specLevelGroup env p (variables m) = [] then None
              else Some (specLevelGroup env p (variables m))))
    \<and> (\<forall>v p. v \<in> set (variables m) \<and> hasLevels env v \<and> getLevelPrefix env v = Some p \<longrightarrow>
          (\<exists>es. (p, es) \<in> set groups \<and> v \<in> opt_value ` set es)
          \<and> (\<forall>k es. (k, es) \<in> set groups \<and> v \<in> opt_value ` set es \<longrightarrow> k = p)
          \<and> p \<in> set (variableList env (Some m))
          \<and> ((\<forall>x \<in> set (variables m). \<not> hasLevels env x \<longrightarrow> x \<noteq> p)
                \<longrightarrow> count_list (variableList env (Some m)) p = 1))
    \<and> (\<forall>v. hasLevels env v \<and> getLevelPrefix env v = None \<longrightarrow>
          (\<forall>k es. (k, es) \<in> set groups \<longrightarrow> v \<notin> opt_value ` set es))"
proof -
  from levelGroupsList_total [OF assms] obtain groups where
    g: "levelGroupsList env (Some m) = Inr groups" ..
  note mo = levelGroupsList_map_of [OF g]
  note dist = levelGroupsList_distinct [OF g]
  have members: "v \<in> set (variables m) \<and> hasLevels env v \<and> getLevelPrefix env v = Some k"
    if "(k, es) \<in> set groups" "v \<in> opt_value ` set es" for k es v
    using levelGroupsList_entry(1) [OF g that(1)] that(2) by (simp add: specLevelGroup_values)
  have level: "(\<exists>es. (p, es) \<in> set groups \<and> v \<in> opt_value ` set es)
          \<and> (\<forall>k es. (k, es) \<in> set groups \<and> v \<in> opt_value ` set es \<longrightarrow> k = p)
          \<and> p \<in> set (variableList env (Some m))
          \<and> ((\<forall>x \<in> set (variables m). \<not> hasLevels env x \<longrightarrow> x \<noteq> p)
                \<longrightarrow> count_list (variableList env (Some m)) p = 1)"
    if v: "v \<in> set (variables m) \<and> hasLevels env v \<and> getLevelPrefix env v = Some p" for v p
  proof (intro conjI allI impI)
    have vin: "v \<in> opt_value ` set (specLevelGroup env p (variables m))"
      using v by (simp add: specLevelGroup_values)
    then have "specLevelGroup env p (variables m) \<noteq> []" by auto
    then have "map_of groups p = Some (specLevelGroup env p (variables m))"
      by (simp add: mo)
    then have "(p, specLevelGroup env p (variables m)) \<in> set groups"
      by (rule map_of_SomeD)
    with vin show "\<exists>es. (p, es) \<in> set groups \<and> v \<in> opt_value ` set es" by blast
    show "k = p" if "(k, es) \<in> set groups \<and> v \<in> opt_value ` set es" for k es
      using members [of k es v] that v by simp
    show "p \<in> set (variableList env (Some m))"
      using v by (auto simp: variableList_def variableListLoop_set)
    show "count_list (variableList env (Some m)) p = 1"
      if "\<forall>x \<in> set (variables m). \<not> hasLevels env x \<longrightarrow> x \<noteq> p"
      using variableListLoop_count [OF that, of "[]"] v by (auto simp: variableList_def)
  qed
  have dropped: "\<forall>k es. (k, es) \<in> set groups \<longrightarrow> v \<notin> opt_value ` set es"
    if "hasLevels env v \<and> getLevelPrefix env v = None" for v
    using members that by fastforce
  show ?thesis
    using g dist mo level dropped by blast
qed

text \<open>The document \<^verbatim>\<open>temperature_2m\<close>, \<^verbatim>\<open>cloud_cover_850hPa\<close>, \<^verbatim>\<open>cloud_cover_500hPa\<close> in the
  sample environment: the grouping returns, and the prefix \<^verbatim>\<open>cloud_cover\<close>, which no other
  name of the document equals, is in the list once.\<close>

theorem C6_level_groups_witness:
  "noInheritedPrefix sampleEnv
       (variables (sampleMeta [''temperature_2m'', ''cloud_cover_850hPa'', ''cloud_cover_500hPa'']))
   \<and> (\<exists>groups. levelGroupsList sampleEnv
          (Some (sampleMeta [''temperature_2m'', ''cloud_cover_850hPa'', ''cloud_cover_500hPa'']))
        = Inr groups
        \<and> map_of groups ''cloud_cover''
          = Some [\<lparr>opt_value = ''cloud_cover_850hPa'', opt_label = ''cloud_cover_850hPa''\<rparr>,
                  \<lparr>opt_value = ''cloud_cover_500hPa'', opt_label = ''cloud_cover_500hPa''\<rparr>])
   \<and> count_list (variableList sampleEnv
          (Some (sampleMeta [''temperature_2m'', ''cloud_cover_850hPa'', ''cloud_cover_500hPa''])))
        ''cloud_cover'' = 1"
proof -
  let ?m = "sampleMeta [''temperature_2m'', ''cloud_cover_850hPa'', ''cloud_cover_500hPa'']"
  have h: "noInheritedPrefix sampleEnv (variables ?m)"
    by code_simp
  have group: "specLevelGroup sampleEnv ''cloud_cover'' (variables ?m)
      = [\<lparr>opt_value = ''cloud_cover_850hPa'', opt_label = ''cloud_cover_850hPa''\<rparr>,
         \<lparr>opt_value = ''cloud_cover_500hPa'', opt_label = ''cloud_cover_500hPa''\<rparr>]"
    by code_simp
  have v: "''cloud_cover_850hPa'' \<in> set (variables ?m) \<and> hasLevels sampleEnv ''cloud_cover_850hPa''
      \<and> getLevelPrefix sampleEnv ''cloud_cover_850hPa'' = Some ''cloud_cover''"
    by code_simp
  have scalars: "\<forall>x \<in> set (variables ?m). \<not> hasLevels sampleEnv x \<longrightarrow> x \<noteq> ''cloud_cover''"
    by code_simp
  from C6_level_groups [OF h] obtain groups where
    g: "levelGroupsList sampleEnv (Some ?m) = Inr groups"
    and mo: "\<forall>p. map_of groups p =
             (if specLevelGroup sampleEnv p (variables ?m) = [] then None
              else Some (specLevelGroup sampleEnv p (variables ?m)))"
    and level: "\<forall>v p. v \<in> set (variables ?m) \<and> hasLevels sampleEnv v
          \<and> getLevelPrefix sampleEnv v = Some p \<longrightarrow>
          (\<exists>es. (p, es) \<in> set groups \<and> v \<in> opt_value ` set es)
          \<and> (\<forall>k es. (k, es) \<in> set groups \<and> v \<in> opt_value ` set es \<longrightarrow> k = p)
          \<and> p \<in> set (variableList sampleEnv (Some ?m))
          \<and> ((\<forall>x \<in> set (variables ?m). \<not> hasLevels sampleEnv x \<longrightarrow> x \<noteq> p)
                \<longrightarrow> count_list (variableList sampleEnv (Some ?m)) p = 1)"
    by blast
  from mo group have "map_of groups ''cloud_cover''
      = Some [\<lparr>opt_value = ''cloud_cover_850hPa'', opt_label = ''cloud_cover_850hPa''\<rparr>,
              \<lparr>opt_value = ''cloud_cover_500hPa'', opt_label = ''cloud_cover_500hPa''\<rparr>]"
    by simp
  moreover from level v scalars
  have "count_list (variableList sampleEnv (Some ?m)) ''cloud_cover'' = 1"
    by blast
  ultimately show ?thesis using h g by blast
qed

text \<open>
  Claim C6 as the specification states it fails on the document \<^verbatim>\<open>cloud_cover_850hPa\<close>,
  \<^verbatim>\<open>cloud_cover\<close>, \<^verbatim>\<open>wind_gusts_10m\<close> in the sample environment. The name
  \<^verbatim>\<open>wind_gusts_10m\<close> is level-bearing and its prefix extraction fails: the mapping has the
  one group \<^verbatim>\<open>cloud_cover\<close>, so this level-bearing name is in no group. And the prefix
  \<^verbatim>\<open>cloud_cover\<close> of the level-bearing name \<^verbatim>\<open>cloud_cover_850hPa\<close> is in the list twice, once
  pushed as a prefix and once as the name \<^verbatim>\<open>cloud_cover\<close> that follows.
\<close>

theorem C6_level_groups_counterexample:
  "hasLevels sampleEnv ''wind_gusts_10m''
   \<and> getLevelPrefix sampleEnv ''wind_gusts_10m'' = None
   \<and> levelGroupsList sampleEnv
       (Some (sampleMeta [''cloud_cover_850hPa'', ''cloud_cover'', ''wind_gusts_10m'']))
     = Inr [(''cloud_cover'',
             [\<lparr>opt_value = ''cloud_cover_850hPa'', opt_label = ''cloud_cover_850hPa''\<rparr>])]
   \<and> hasLevels sampleEnv ''cloud_cover_850hPa''
   \<and> getLevelPrefix sampleEnv ''cloud_cover_850hPa'' = Some ''cloud_cover''
   \<and> variableList sampleEnv
       (Some (sampleMeta [''cloud_cover_850hPa'', ''cloud_cover'', ''wind_gusts_10m'']))
     = [''cloud_cover'', ''cloud_cover'']
   \<and> count_list (variableList sampleEnv
         (Some (sampleMeta [''cloud_cover_850hPa'', ''cloud_cover'', ''wind_gusts_10m''])))
       ''cloud_cover'' = 2"
  by code_simp

section \<open>Changing the variable\<close>

lemma defaultLevelLoop_member:
  "defaultLevelLoop d levels = d \<or> defaultLevelLoop d levels \<in> opt_value ` set levels"
  by (induction levels) auto

text \<open>The rule of the loop: the first entry that contains any of the three substrings, and
  the initial value when there is none.\<close>

lemma defaultLevelLoop_first_match:
  "defaultLevelLoop d levels =
     (case find (\<lambda>level. includes_str (opt_value level) ''2m''
                   \<or> includes_str (opt_value level) ''10m''
                   \<or> includes_str (opt_value level) ''100m'') levels of
        Some level \<Rightarrow> opt_value level
      | None \<Rightarrow> d)"
  by (induction levels) simp_all

text \<open>When the selector is a key of the mapping, the handler returns, and the variable it
  sets is the value of an entry of that key's group.\<close>

lemma handleVariableChange_group:
  assumes "metaJson s = Some m"
    and "levelGroupsList env (Some m) = Inr groups"
    and "map_of groups newVariable = Some levels"
  shows "\<exists>level \<in> set levels.
           handleVariableChange env newVariable s = Inr (s\<lparr>variable := Some (opt_value level)\<rparr>)"
proof -
  have "levels \<noteq> []"
    using levelGroupsList_map_of [OF assms(2), of newVariable] assms(3)
    by (auto split: if_splits)
  then obtain level0 rest where levels: "levels = level0 # rest"
    by (cases levels) auto
  have own: "getProperty groups newVariable = Own levels"
    using assms(3) by (simp add: getProperty_def)
  have h: "handleVariableChange env newVariable s
      = Inr (s\<lparr>variable := Some (defaultLevelLoop (opt_value level0) levels)\<rparr>)"
    using assms(1,2) own levels by (simp add: handleVariableChange_def)
  have "defaultLevelLoop (opt_value level0) levels \<in> opt_value ` set levels"
    using defaultLevelLoop_member [of "opt_value level0" levels] levels by auto
  then obtain level where "level \<in> set levels"
    "defaultLevelLoop (opt_value level0) levels = opt_value level" by auto
  with h show ?thesis by auto
qed

text \<open>
  Claim C10. In a state with a loaded document, let the selector be a key of the mapping
  that \<^const>\<open>levelGroupsList\<close> derives from that document. Then
  \<^const>\<open>handleVariableChange\<close> returns without an exception, changes nothing but the
  variable, and sets the variable to the value of an entry of the group under that key.
\<close>

theorem C10_group_member_selected:
  assumes "metaJson s = Some m"
    and "levelGroupsList env (Some m) = Inr groups"
    and "map_of groups newVariable = Some levels"
  shows "\<exists>level \<in> set levels.
           handleVariableChange env newVariable s = Inr (s\<lparr>variable := Some (opt_value level)\<rparr>)"
  using assms by (rule handleVariableChange_group)

text \<open>The group \<^verbatim>\<open>temperature\<close> of the document \<^verbatim>\<open>cloud_cover\<close>, \<^verbatim>\<open>temperature_850hPa\<close>,
  \<^verbatim>\<open>temperature_2m\<close> in the sample environment.\<close>

theorem C10_group_member_selected_witness:
  "\<exists>level \<in> set [\<lparr>opt_value = ''temperature_850hPa'', opt_label = ''temperature_850hPa''\<rparr>,
                  \<lparr>opt_value = ''temperature_2m'', opt_label = ''Temperature (2 m)''\<rparr>].
      handleVariableChange sampleEnv ''temperature''
          (sampleState ''cloud_cover'' [''cloud_cover'', ''temperature_850hPa'', ''temperature_2m''])
        = Inr ((sampleState ''cloud_cover''
                  [''cloud_cover'', ''temperature_850hPa'', ''temperature_2m''])
                 \<lparr>variable := Some (opt_value level)\<rparr>)"
proof -
  let ?vs = "[''cloud_cover'', ''temperature_850hPa'', ''temperature_2m'']"
  let ?groups = "[(''temperature'',
      [\<lparr>opt_value = ''temperature_850hPa'', opt_label = ''temperature_850hPa''\<rparr>,
       \<lparr>opt_value = ''temperature_2m'', opt_label = ''Temperature (2 m)''\<rparr>])]"
  have h1: "metaJson (sampleState ''cloud_cover'' ?vs) = Some (sampleMeta ?vs)"
    by (simp add: sampleState_def)
  have h2: "levelGroupsList sampleEnv (Some (sampleMeta ?vs)) = Inr ?groups"
    by code_simp
  have h3: "map_of ?groups ''temperature''
      = Some [\<lparr>opt_value = ''temperature_850hPa'', opt_label = ''temperature_850hPa''\<rparr>,
              \<lparr>opt_value = ''temperature_2m'', opt_label = ''Temperature (2 m)''\<rparr>]"
    by simp
  from C10_group_member_selected [OF h1 h2 h3] show ?thesis .
qed

text \<open>
  Claim C2, evaluated where the code departs from it. The document lists
  \<^verbatim>\<open>wind_speed_100m\<close> before \<^verbatim>\<open>wind_speed_10m\<close> (as an alphabetical listing does), so the
  group \<^verbatim>\<open>wind_speed\<close> has these two entries in this order. No entry contains \<^verbatim>\<open>2m\<close>, so the
  preference order of the claim selects the first entry containing \<^verbatim>\<open>10m\<close>,
  \<^verbatim>\<open>wind_speed_10m\<close>. The loop of \<^const>\<open>handleVariableChange\<close> stops at the first entry
  that contains any of the three substrings and selects \<^verbatim>\<open>wind_speed_100m\<close>.
\<close>

theorem C2_default_level_at_failing_input:
  "levelGroupsList sampleEnv
       (metaJson (sampleState ''cloud_cover'' [''cloud_cover'', ''wind_speed_100m'', ''wind_speed_10m'']))
     = Inr [(''wind_speed'',
             [\<lparr>opt_value = ''wind_speed_100m'', opt_label = ''wind_speed_100m''\<rparr>,
              \<lparr>opt_value = ''wind_speed_10m'', opt_label = ''wind_speed_10m''\<rparr>])]
   \<and> handleVariableChange sampleEnv ''wind_speed''
         (sampleState ''cloud_cover'' [''cloud_cover'', ''wind_speed_100m'', ''wind_speed_10m''])
     = Inr ((sampleState ''cloud_cover'' [''cloud_cover'', ''wind_speed_100m'', ''wind_speed_10m''])
              \<lparr>variable := Some ''wind_speed_100m''\<rparr>)
   \<and> specDefaultLevel
         [\<lparr>opt_value = ''wind_speed_100m'', opt_label = ''wind_speed_100m''\<rparr>,
          \<lparr>opt_value = ''wind_speed_10m'', opt_label = ''wind_speed_10m''\<rparr>]
     = Some ''wind_speed_10m''"
  by code_simp

section \<open>Changing the domain\<close>

lemma similarVariableLoop_find:
  "similarVariableLoop p d vars =
     (case find (\<lambda>v. startsWith v p) vars of Some v \<Rightarrow> Some v | None \<Rightarrow> d)"
  by (induction vars) simp_all

lemma find_in_set: "find P xs = Some x \<Longrightarrow> x \<in> set xs"
  by (induction xs) (auto split: if_splits)

lemma index0_in_set: "xs \<noteq> [] \<Longrightarrow> \<exists>x \<in> set xs. index0 xs = Some x"
  by (cases xs) (simp_all add: index0_def)

text \<open>
  Claim C1, as the code has it. When the metadata fetch fails (a network error, a status
  outside 200 to 299, or a body that is not JSON), the handler leaves the variable, the
  metadata document, the model run and the display time as they were, logs the error and
  clears the loading flag; the domain is the newly requested one, which the handler stores
  before it starts the fetch and does not restore.
\<close>

theorem C1_failed_fetch_state:
  assumes "fetchMetaData net newDomain = Inl e"
  shows "handleDomainChange env net newDomain s
     = s\<lparr>loading := False, domain := newDomain, console := console s @ [e]\<rparr>"
  using assms by (simp add: handleDomainChange_def Let_def)

theorem C1_failed_fetch_state_witness:
  "handleDomainChange sampleEnv failingNetwork ''gfs_global''
       (sampleState ''temperature_2m'' [''temperature_2m''])
     = (sampleState ''temperature_2m'' [''temperature_2m''])
         \<lparr>loading := False, domain := ''gfs_global'', console := [Error ''HTTP 404'']\<rparr>"
proof -
  have h: "fetchMetaData failingNetwork ''gfs_global'' = Inl (Error ''HTTP 404'')"
    by code_simp
  show ?thesis
    using C1_failed_fetch_state [OF h, of sampleEnv "sampleState ''temperature_2m'' [''temperature_2m'']"]
    by (simp add: sampleState_def)
qed

text \<open>Claim C1 as the specification states it fails: the server answers 404, and the domain
  after the handler is not the domain before it.\<close>

theorem C1_domain_changes_counterexample:
  "fetchMetaData failingNetwork ''gfs_global'' = Inl (Error ''HTTP 404'')
   \<and> domain (sampleState ''temperature_2m'' [''temperature_2m'']) = ''dwd_icon''
   \<and> domain (handleDomainChange sampleEnv failingNetwork ''gfs_global''
               (sampleState ''temperature_2m'' [''temperature_2m''])) = ''gfs_global''"
  by code_simp

text \<open>
  Claim C4. Let the fetch succeed with the document \<open>meta\<close>, in a state whose variable is a
  string \<open>current\<close>. The handler stores the new domain, the document and its model run,
  clears the loading flag, logs nothing, and sets the variable as follows: \<open>current\<close> itself
  when it is among the variables of \<open>meta\<close>; otherwise, when \<open>current\<close> has a group prefix and
  some variable of \<open>meta\<close> starts with that prefix, the first such variable in the order of
  the document; otherwise the element at index 0 of the variables of \<open>meta\<close> (which for a
  document without variables is \<^verbatim>\<open>undefined\<close>, again without an exception). The state's
  variable is a string in every state the component can display: with an undefined
  variable the render itself throws.
\<close>

theorem C4_new_variable:
  assumes "fetchMetaData net newDomain = Inr meta" and "variable s = Some current"
  shows "handleDomainChange env net newDomain s
     = s\<lparr>loading := False, domain := newDomain, metaJson := Some meta,
          modelRun := Some (newDate env (reference_time meta)),
          variable :=
            (if current \<in> set (variables meta) then Some current
             else case getLevelPrefix env current of
                    Some p \<Rightarrow>
                      (case find (\<lambda>v. startsWith v p) (variables meta) of
                         Some v \<Rightarrow> Some v
                       | None \<Rightarrow> index0 (variables meta))
                  | None \<Rightarrow> index0 (variables meta))\<rparr>"
  using assms
  by (simp add: handleDomainChange_def Let_def similarVariableLoop_find split: option.splits)

text \<open>From \<^verbatim>\<open>cloud_cover_850hPa\<close> to a document without it: first the case with a variable
  that starts with the prefix \<^verbatim>\<open>cloud_cover\<close>, then the case without one.\<close>

theorem C4_new_variable_witness:
  "variable (handleDomainChange sampleEnv
       (sampleNetwork (sampleMeta [''temperature_2m'', ''cloud_cover_500hPa'', ''cloud_cover_700hPa'']))
       ''gfs_global'' (sampleState ''cloud_cover_850hPa'' [''cloud_cover_850hPa'']))
     = Some ''cloud_cover_500hPa''
   \<and> variable (handleDomainChange sampleEnv
       (sampleNetwork (sampleMeta [''temperature_2m'', ''wind_speed_10m'']))
       ''gfs_global'' (sampleState ''cloud_cover_850hPa'' [''cloud_cover_850hPa'']))
     = Some ''temperature_2m''"
proof -
  let ?s = "sampleState ''cloud_cover_850hPa'' [''cloud_cover_850hPa'']"
  let ?m1 = "sampleMeta [''temperature_2m'', ''cloud_cover_500hPa'', ''cloud_cover_700hPa'']"
  let ?m2 = "sampleMeta [''temperature_2m'', ''wind_speed_10m'']"
  have f1: "fetchMetaData (sampleNetwork ?m1) ''gfs_global'' = Inr ?m1"
    by (simp add: fetchMetaData_def sampleNetwork_def ok_def)
  have f2: "fetchMetaData (sampleNetwork ?m2) ''gfs_global'' = Inr ?m2"
    by (simp add: fetchMetaData_def sampleNetwork_def ok_def)
  have v: "variable ?s = Some ''cloud_cover_850hPa''"
    by (simp add: sampleState_def)
  have p: "getLevelPrefix sampleEnv ''cloud_cover_850hPa'' = Some ''cloud_cover''"
    by code_simp
  have "variable (handleDomainChange sampleEnv (sampleNetwork ?m1) ''gfs_global'' ?s)
      = Some ''cloud_cover_500hPa''"
    unfolding C4_new_variable [OF f1 v] by (simp add: p sampleMeta_def index0_def)
  moreover have "variable (handleDomainChange sampleEnv (sampleNetwork ?m2) ''gfs_global'' ?s)
      = Some ''temperature_2m''"
    unfolding C4_new_variable [OF f2 v] by (simp add: p sampleMeta_def index0_def)
  ultimately show ?thesis by simp
qed

section \<open>The invariant of the selection state\<close>

lemma handleDomainChange_failed_inv:
  "fetchMetaData net newDomain = Inl e \<Longrightarrow> variableInDocument s
     \<Longrightarrow> variableInDocument (handleDomainChange env net newDomain s)"
  by (auto simp: handleDomainChange_def Let_def variableInDocument_def split: option.splits)

text \<open>A successful domain change to a document with at least one variable establishes the
  invariant, whether or not it held before.\<close>

lemma handleDomainChange_success_inv:
  assumes "fetchMetaData net newDomain = Inr meta" "variables meta \<noteq> []"
    and "variable s = Some current"
  shows "variableInDocument (handleDomainChange env net newDomain s)"
proof -
  obtain x where x: "x \<in> set (variables meta)" "index0 (variables meta) = Some x"
    using index0_in_set [OF assms(2)] by blast
  show ?thesis
    using assms(1,3) x
    by (auto simp: handleDomainChange_def Let_def variableInDocument_def
        similarVariableLoop_find split: option.splits dest: find_in_set)
qed

lemma handleVariableChange_inv:
  assumes "variableInDocument s" "newVariable \<in> set (variableList env (metaJson s))"
    and "handleVariableChange env newVariable s = Inr s'"
  shows "variableInDocument s'"
proof -
  from assms(1) obtain m where m: "metaJson s = Some m"
    by (auto simp: variableInDocument_def split: option.splits)
  from assms(3) obtain groups where g: "levelGroupsList env (Some m) = Inr groups"
    by (auto simp: handleVariableChange_def m split: sum.splits)
  note mo = levelGroupsList_map_of [OF g, of newVariable]
  show ?thesis
  proof (cases "map_of groups newVariable")
    case (Some levels)
    from handleVariableChange_group [OF m g Some] obtain level where
      level: "level \<in> set levels" and
      "handleVariableChange env newVariable s = Inr (s\<lparr>variable := Some (opt_value level)\<rparr>)"
      by blast
    with assms(3) have s': "s' = s\<lparr>variable := Some (opt_value level)\<rparr>" by simp
    from Some mo have "levels = specLevelGroup env newVariable (variables m)"
      by (auto split: if_splits)
    with level have "opt_value level \<in> set (variables m)"
      using specLevelGroup_values [of env newVariable "variables m"] by auto
    then show ?thesis by (simp add: s' variableInDocument_def m)
  next
    case None
    with mo have "specLevelGroup env newVariable (variables m) = []"
      by (auto split: if_splits)
    then have "\<not> (\<exists>v \<in> set (variables m). hasLevels env v \<and> getLevelPrefix env v = Some newVariable)"
      using specLevelGroup_values [of env newVariable "variables m"] by auto
    with assms(2) have "newVariable \<in> set (variables m)"
      by (auto simp: m variableList_def variableListLoop_set)
    moreover have "s' = s\<lparr>variable := Some newVariable\<rparr>"
      using assms(3) None g
      by (auto simp: handleVariableChange_def m getProperty_def split: if_splits)
    ultimately show ?thesis by (simp add: variableInDocument_def m)
  qed
qed

lemma handleLevelChange_inv:
  assumes "metaJson s = Some m" "levelGroupsList env (Some m) = Inr groups"
    and "newLevel \<in> set (map opt_value (concat (map snd groups)))"
  shows "variableInDocument (handleLevelChange newLevel s)"
proof -
  from assms(3) obtain k es where "(k, es) \<in> set groups" "newLevel \<in> opt_value ` set es"
    by auto
  then have "newLevel \<in> set (variables m)"
    using levelGroupsList_entry(1) [OF assms(2)] specLevelGroup_values [of env k "variables m"]
    by auto
  then show ?thesis by (simp add: handleLevelChange_def variableInDocument_def assms(1))
qed

lemma step_inv:
  assumes "variableInDocument s" "selectable env s ev"
  shows "variableInDocument (step env s ev)"
proof -
  from assms(1) obtain m current where m: "metaJson s = Some m" and v: "variable s = Some current"
    by (auto simp: variableInDocument_def split: option.splits)
  show ?thesis
  proof (cases ev)
    case (Mount net outcome)
    with assms(2) show ?thesis by simp
  next
    case (ChangeDomain newDomain net)
    show ?thesis
    proof (cases "fetchMetaData net newDomain")
      case (Inl e)
      then show ?thesis using assms(1) ChangeDomain by (simp add: handleDomainChange_failed_inv)
    next
      case (Inr meta)
      with assms(2) ChangeDomain have "variables meta \<noteq> []" by simp
      from handleDomainChange_success_inv [OF Inr this v] show ?thesis
        using ChangeDomain by simp
    qed
  next
    case (ChangeVariable newVariable)
    show ?thesis
    proof (cases "handleVariableChange env newVariable s")
      case (Inl e)
      with assms(1) ChangeVariable show ?thesis by simp
    next
      case (Inr s')
      with assms ChangeVariable handleVariableChange_inv [of s newVariable env s']
      show ?thesis by simp
    qed
  next
    case (ChangeLevel newLevel)
    with assms(2) m obtain groups where "levelGroupsList env (Some m) = Inr groups"
      "newLevel \<in> set (map opt_value (concat (map snd groups)))"
      by (auto split: sum.splits)
    from handleLevelChange_inv [OF m this] show ?thesis using ChangeLevel by simp
  qed
qed

text \<open>
  Claim C5, as the code has it. From a state in which a document has loaded and the
  variable is one of its variables, every sequence of events that the selectors can produce
  leads to a state with the same property: domain changes whose fetch fails or brings a
  document with at least one variable, variable changes to an entry of the list of
  \<^const>\<open>variableList\<close>, and level changes to an entry of a level group of the current
  document. The handlers themselves do not check their argument.
\<close>

theorem C5_invariant_preserved:
  assumes "variableInDocument s" and "selectableRun env s events"
  shows "variableInDocument (run env s events)"
  using assms
proof (induction events arbitrary: s)
  case Nil
  then show ?case by (simp add: run_def)
next
  case (Cons ev events)
  then have "variableInDocument (step env s ev)" "selectableRun env (step env s ev) events"
    by (simp_all add: step_inv)
  then have "variableInDocument (run env (step env s ev) events)" by (rule Cons.IH)
  then show ?case by (simp add: run_def)
qed

text \<open>A session in the sample environment: the group \<^verbatim>\<open>wind_speed\<close> is chosen, then one of its
  levels, then a domain whose document lacks it, then a domain whose fetch fails.\<close>

theorem C5_invariant_preserved_witness:
  "variableInDocument
     (run sampleEnv
        (sampleState ''cloud_cover'' [''cloud_cover'', ''wind_speed_100m'', ''wind_speed_10m''])
        [ChangeVariable ''wind_speed'', ChangeLevel ''wind_speed_10m'',
         ChangeDomain ''gfs_global'' (sampleNetwork (sampleMeta [''temperature_2m''])),
         ChangeDomain ''ecmwf_ifs'' failingNetwork])"
proof -
  let ?s = "sampleState ''cloud_cover'' [''cloud_cover'', ''wind_speed_100m'', ''wind_speed_10m'']"
  let ?events = "[ChangeVariable ''wind_speed'', ChangeLevel ''wind_speed_10m'',
         ChangeDomain ''gfs_global'' (sampleNetwork (sampleMeta [''temperature_2m''])),
         ChangeDomain ''ecmwf_ifs'' failingNetwork]"
  have h1: "variableInDocument ?s"
    by code_simp
  have h2: "selectableRun sampleEnv ?s ?events"
    by code_simp
  from C5_invariant_preserved [OF h1 h2] show ?thesis .
qed

text \<open>
  Claim C5 as the specification states it fails on two counts. Called with a string that is
  not a variable of the document, \<^const>\<open>handleLevelChange\<close> sets it all the same. And when
  the first document that loads does not contain the default variable \<^verbatim>\<open>temperature_2m\<close>,
  the state after the mount has a document and a variable outside it.
\<close>

theorem C5_invariant_counterexample:
  "variableInDocument (sampleState ''temperature_2m'' [''temperature_2m'', ''cloud_cover''])
   \<and> \<not> variableInDocument
         (run sampleEnv (sampleState ''temperature_2m'' [''temperature_2m'', ''cloud_cover''])
            [ChangeLevel ''temperature_80m''])
   \<and> metaJson (run sampleEnv (initialState 1714543200000)
         [Mount (sampleNetwork (sampleMeta [''cloud_cover''])) MapLoaded])
       = Some (sampleMeta [''cloud_cover''])
   \<and> \<not> variableInDocument
         (run sampleEnv (initialState 1714543200000)
            [Mount (sampleNetwork (sampleMeta [''cloud_cover''])) MapLoaded])"
  by code_simp

section \<open>The display time\<close>

lemma step_selectedTime: "selectedTime (step env s ev) = selectedTime s"
proof (cases ev)
  case (Mount net outcome)
  then show ?thesis
    by (simp add: initMap_def Let_def split: sum.splits map_outcome.splits)
next
  case (ChangeDomain newDomain net)
  then show ?thesis
    by (simp add: handleDomainChange_def Let_def split: sum.splits option.splits)
next
  case (ChangeVariable newVariable)
  then show ?thesis
    by (auto simp: handleVariableChange_def split: sum.splits property.splits list.splits)
next
  case (ChangeLevel newLevel)
  then show ?thesis by (simp add: handleLevelChange_def)
qed

lemma run_selectedTime: "selectedTime (run env s events) = selectedTime s"
  unfolding run_def by (induction events arbitrary: s) (simp_all add: step_selectedTime)

text \<open>\<^verbatim>\<open>setUTCHours(getUTCHours() + 1, 0, 0, 0)\<close> on the time value \<open>now\<close> is the start of the
  hour that follows the hour \<open>now\<close> lies in.\<close>

lemma initialSelectedTime_next_hour:
  "initialSelectedTime now = TimeValue ((now div msPerHour + 1) * msPerHour)"
proof -
  define q where "q = now div 3600000"
  define d where "d = q div 24"
  define r where "r = q mod 24"
  have "now div 86400000 = d"
    unfolding q_def d_def by (simp add: zdiv_zmult2_eq [symmetric])
  moreover have "q = 24 * d + r" unfolding d_def r_def by simp
  ultimately have "now div 86400000 * 86400000 + (r + 1) * 3600000 = (q + 1) * 3600000"
    by (simp add: algebra_simps)
  then show ?thesis
    unfolding r_def
    by (simp add: initialSelectedTime_def Day_def HourFromTime_def msPerDay_def msPerHour_def
        msPerMinute_def msPerSecond_def q_def)
qed

text \<open>
  Claim C9. The display time is set once, in the initial state, from the time \<open>now\<close> at
  which the component is created: it is the whole UTC hour that follows \<open>now\<close> (later than
  \<open>now\<close>, by at most one hour), with minutes, seconds and milliseconds zero. After any
  sequence of events (the mount, domain, variable and level changes, with any network
  answers) the state still holds this same time, and the overlay URL of the state is built
  with it.
\<close>

theorem C9_selected_time:
  "selectedTime (run env (initialState now) events) = TimeValue ((now div msPerHour + 1) * msPerHour)
   \<and> now < (now div msPerHour + 1) * msPerHour
   \<and> (now div msPerHour + 1) * msPerHour \<le> now + msPerHour
   \<and> getUTCMinutes (selectedTime (run env (initialState now) events)) = Number 0
   \<and> getUTCSeconds (selectedTime (run env (initialState now) events)) = Number 0
   \<and> getUTCMilliseconds (selectedTime (run env (initialState now) events)) = Number 0
   \<and> omUrl (run env (initialState now) events)
       = (case modelRun (run env (initialState now) events) of
            None \<Rightarrow> None
          | Some mr \<Rightarrow>
              Some (''om://'' @ getOMUrl (domain (run env (initialState now) events))
                      (case variable (run env (initialState now) events) of
                         None \<Rightarrow> ''undefined'' | Some v \<Rightarrow> v)
                      mr (TimeValue ((now div msPerHour + 1) * msPerHour))))"
proof -
  define t where "t = (now div msPerHour + 1) * msPerHour"
  have sel: "selectedTime (run env (initialState now) events) = TimeValue t"
    by (simp add: run_selectedTime initialState_def initialSelectedTime_next_hour t_def)
  have "3600000 * (now div 3600000) \<le> now" "now < 3600000 * (now div 3600000) + 3600000"
    by linarith+
  then have lo: "now < t" and hi: "t \<le> now + msPerHour"
    unfolding t_def msPerHour_def by (simp_all add: algebra_simps)
  have "t div msPerMinute = (now div msPerHour + 1) * 60"
    unfolding t_def msPerHour_def msPerMinute_def by simp
  then have mi: "MinFromTime t = 0" by (simp add: MinFromTime_def)
  have "t div msPerSecond = (now div msPerHour + 1) * 3600"
    unfolding t_def msPerHour_def msPerSecond_def by simp
  then have se: "SecFromTime t = 0" by (simp add: SecFromTime_def)
  have ms: "msFromTime t = 0"
    unfolding t_def msPerHour_def msPerSecond_def msFromTime_def by simp
  show ?thesis
    unfolding t_def [symmetric]
    using sel lo hi mi se ms by (simp add: omUrl_def split: option.splits)
qed

end
